theory Spec2Isabelle
  imports Main "HOL-Library.Sublist"
begin

section \<open>The notebook \<open>LosAngeles_time_series.ipynb\<close> as a program\<close>

text \<open>
  The repository is one Jupyter notebook. Its code cells are written in the fragment of
  Python and IPython shown below: imports, assignments, \<open>if\<close>, \<open>with\<close>,
  \<open>try\<close>/\<open>except\<close>, \<open>raise\<close>, calls, attribute access, indexing, f-strings, and
  the IPython forms \<open>!cmd\<close>, \<open>x = !cmd\<close> and \<open>%%capture\<close>. The cells are transcribed as
  syntax trees of that fragment and run by an interpreter. Everything the notebook does
  not own (the shell, the imported third-party packages) is a parameter of the
  interpreter; \<open>pathlib\<close>, \<open>zipfile\<close>, \<open>str\<close> methods and \<open>IPython.display\<close> are part of
  the language and are given their documented meaning.
\<close>

subsection \<open>Values, errors, the file system\<close>

type_synonym name = string

text \<open>An absolute POSIX path is the list of its components; the root is \<open>[]\<close>.\<close>
type_synonym path = "string list"

text \<open>An exception: the name of its class and its message.\<close>
datatype error = Exc string string

text \<open>A member of a zip archive, with its name relative to the extraction directory.\<close>
datatype zentry = ZFile path string | ZDir path

datatype val =
    VNone
  | VBool bool
  | VInt int
  | VStr string
  | VList "val list"
  | VPath path
  | VModule string
  | VBuiltin string
  | VBound val string
  | VExt string
  | VMarkdown string
  | VZip "zentry list"
  | VExc error
  | VType string

datatype node = Dir | File string

type_synonym fsys = "path \<rightharpoonup> node"

text \<open>What the notebook's own \<open>print\<close> and \<open>display\<close> calls emit.\<close>
datatype emitted = Stdout string | Display val

text \<open>
  The world outside the Python namespace: the file system, whatever else external
  programs read and write (\<open>hidden\<close>: the network, the process environment, the current
  directory, files of other formats), and the output the notebook itself has emitted.
\<close>
record 'h world =
  fs :: fsys
  hidden :: 'h
  out :: "emitted list"

text \<open>
  The external collaborators. They see and change the file system and the hidden part of
  the world, never the Python namespace.
  \<^item> \<open>ext_import m\<close>: importing the third-party module \<open>m\<close>; may raise.
  \<^item> \<open>ext_method obj meth args\<close>: a special method of an external object, named by an
    identifier: \<open>__call__\<close>, \<open>__getattribute__\<close>, \<open>__enter__\<close>, \<open>__exit__\<close>.
  \<^item> \<open>sh cmd\<close>: IPython's \<open>!cmd\<close>, the exit status of the process.
  \<^item> \<open>sh_lines cmd\<close>: IPython's \<open>x = !cmd\<close>, the lines the process printed.
  \<^item> \<open>unzip bytes\<close>: the members of a zip archive, \<open>None\<close> when the bytes are not one.
\<close>
record 'h ext =
  ext_import :: "string \<Rightarrow> fsys \<times> 'h \<Rightarrow> error option \<times> (fsys \<times> 'h)"
  ext_method :: "string \<Rightarrow> string \<Rightarrow> val list \<Rightarrow> fsys \<times> 'h \<Rightarrow> (error + val) \<times> (fsys \<times> 'h)"
  sh :: "string \<Rightarrow> fsys \<times> 'h \<Rightarrow> int \<times> (fsys \<times> 'h)"
  sh_lines :: "string \<Rightarrow> fsys \<times> 'h \<Rightarrow> string list \<times> (fsys \<times> 'h)"
  unzip :: "string \<Rightarrow> zentry list option"

definition outside :: "'h world \<Rightarrow> fsys \<times> 'h" where
  "outside w = (fs w, hidden w)"

definition set_outside :: "fsys \<times> 'h \<Rightarrow> 'h world \<Rightarrow> 'h world" where
  "set_outside p w = w\<lparr>fs := fst p, hidden := snd p\<rparr>"

definition emit :: "emitted list \<Rightarrow> 'h world \<Rightarrow> 'h world" where
  "emit os w = w\<lparr>out := out w @ os\<rparr>"

subsection \<open>Strings and paths\<close>

text \<open>\<open>s.split(sep)\<close> for a non-empty separator: \<open>acc\<close> is the piece being read.\<close>
function split_at :: "string \<Rightarrow> string \<Rightarrow> string \<Rightarrow> string list" where
  "split_at sep acc [] = [acc]"
| "split_at sep acc (c # cs) =
     (if prefix sep (c # cs) then acc # split_at sep [] (drop (length sep - 1) cs)
      else split_at sep (acc @ [c]) cs)"
  by pat_completeness auto
termination
  by (relation "measure (\<lambda>(sep, acc, s). length s)") auto

definition is_space :: "char \<Rightarrow> bool" where
  "is_space c = (c \<in> set [CHR '' '', CHR 0x09, CHR 0x0A, CHR 0x0B, CHR 0x0C, CHR 0x0D])"

text \<open>\<open>s.split()\<close>: the maximal runs of characters that are not white space.\<close>
fun split_ws :: "string \<Rightarrow> string \<Rightarrow> string list" where
  "split_ws acc [] = (if acc = [] then [] else [acc])"
| "split_ws acc (c # cs) =
     (if is_space c then (if acc = [] then split_ws [] cs else acc # split_ws [] cs)
      else split_ws (acc @ [c]) cs)"

definition is_abs :: "string \<Rightarrow> bool" where
  "is_abs s = (case s of [] \<Rightarrow> False | c # _ \<Rightarrow> c = CHR ''/'')"

text \<open>The components of a path written as a string; empty and \<open>.\<close> components vanish.\<close>
definition components :: "string \<Rightarrow> path" where
  "components s = filter (\<lambda>c. c \<noteq> [] \<and> c \<noteq> ''.'') (split_at ''/'' [] s)"

definition path_str :: "path \<Rightarrow> string" where
  "path_str p = (if p = [] then ''/'' else concat (map (\<lambda>c. ''/'' @ c) p))"

text \<open>\<open>p / s\<close> of \<open>pathlib\<close>: an absolute right operand replaces the left one.\<close>
definition joinpath :: "path \<Rightarrow> string \<Rightarrow> path" where
  "joinpath p s = (if is_abs s then components s else p @ components s)"

text \<open>Indexing a list: negative indices count from the end, out of range is an error.\<close>
definition py_index :: "'a list \<Rightarrow> int \<Rightarrow> 'a option" where
  "py_index xs i =
     (let n = int (length xs); j = (if i < 0 then n + i else i)
      in if 0 \<le> j \<and> j < n then Some (xs ! nat j) else None)"

definition py_update :: "'a list \<Rightarrow> int \<Rightarrow> 'a \<Rightarrow> 'a list option" where
  "py_update xs i v =
     (let n = int (length xs); j = (if i < 0 then n + i else i)
      in if 0 \<le> j \<and> j < n then Some (xs[nat j := v]) else None)"

fun truthy :: "val \<Rightarrow> bool" where
  "truthy VNone = False"
| "truthy (VBool b) = b"
| "truthy (VInt i) = (i \<noteq> 0)"
| "truthy (VStr s) = (s \<noteq> [])"
| "truthy (VList xs) = (xs \<noteq> [])"
| "truthy _ = True"

text \<open>
  \<open>str(v)\<close>, for the values whose text the notebook uses. \<open>None\<close> marks a value whose
  text lies outside the modelled fragment.
\<close>
fun to_str :: "val \<Rightarrow> string option" where
  "to_str (VStr s) = Some s"
| "to_str (VPath p) = Some (path_str p)"
| "to_str VNone = Some ''None''"
| "to_str (VBool b) = Some (if b then ''True'' else ''False'')"
| "to_str (VType t) = Some (''<class '' @ [CHR 0x27] @ t @ [CHR 0x27] @ ''>'')"
| "to_str _ = None"

fun type_name :: "val \<Rightarrow> string option" where
  "type_name (VStr s) = Some ''str''"
| "type_name (VPath p) = Some ''pathlib.PosixPath''"
| "type_name VNone = Some ''NoneType''"
| "type_name (VBool b) = Some ''bool''"
| "type_name (VInt i) = Some ''int''"
| "type_name (VList xs) = Some ''list''"
| "type_name (VType t) = Some ''type''"
| "type_name _ = None"

definition unsupported :: "string \<Rightarrow> error" where
  "unsupported what = Exc ''Unsupported'' what"

fun join_sp :: "string list \<Rightarrow> string" where
  "join_sp [] = []"
| "join_sp [s] = s"
| "join_sp (s # t # ss) = s @ '' '' @ join_sp (t # ss)"

subsection \<open>File operations of \<open>pathlib\<close> and \<open>zipfile\<close>\<close>

definition node_at :: "fsys \<Rightarrow> path \<Rightarrow> node option" where
  "node_at f p = (if p = [] then Some Dir else f p)"

definition is_file :: "fsys \<Rightarrow> path \<Rightarrow> bool" where
  "is_file f p = (case node_at f p of Some (File b) \<Rightarrow> True | _ \<Rightarrow> False)"

text \<open>\<open>Path.mkdir()\<close>, with \<open>parents=False\<close> and \<open>exist_ok=False\<close>.\<close>
definition mkdir :: "path \<Rightarrow> fsys \<Rightarrow> error + fsys" where
  "mkdir p f =
     (case node_at f p of
        Some n \<Rightarrow> Inl (Exc ''FileExistsError'' (path_str p))
      | None \<Rightarrow>
         (case node_at f (butlast p) of
            Some Dir \<Rightarrow> Inr (f(p \<mapsto> Dir))
          | Some (File b) \<Rightarrow> Inl (Exc ''NotADirectoryError'' (path_str p))
          | None \<Rightarrow> Inl (Exc ''FileNotFoundError'' (path_str p))))"

text \<open>\<open>Path.unlink()\<close>.\<close>
definition unlink :: "path \<Rightarrow> fsys \<Rightarrow> error + fsys" where
  "unlink p f =
     (case node_at f p of
        Some (File b) \<Rightarrow> Inr (f(p := None))
      | Some Dir \<Rightarrow> Inl (Exc ''IsADirectoryError'' (path_str p))
      | None \<Rightarrow> Inl (Exc ''FileNotFoundError'' (path_str p)))"

text \<open>
  \<open>os.makedirs\<close> as \<open>zipfile\<close> uses it: every missing directory on the way from \<open>pre\<close>
  down is created. What was created stays when a later component fails.
\<close>
fun makedirs :: "path \<Rightarrow> path \<Rightarrow> fsys \<Rightarrow> error option \<times> fsys" where
  "makedirs pre [] f = (None, f)"
| "makedirs pre (c # cs) f =
     (case node_at f (pre @ [c]) of
        None \<Rightarrow> makedirs (pre @ [c]) cs (f(pre @ [c] \<mapsto> Dir))
      | Some Dir \<Rightarrow> makedirs (pre @ [c]) cs f
      | Some (File b) \<Rightarrow> (Some (Exc ''NotADirectoryError'' (path_str (pre @ [c]))), f))"

fun extract_entry :: "path \<Rightarrow> zentry \<Rightarrow> fsys \<Rightarrow> error option \<times> fsys" where
  "extract_entry d (ZDir rel) f = makedirs [] (d @ rel) f"
| "extract_entry d (ZFile rel bytes) f =
     (case makedirs [] (butlast (d @ rel)) f of
        (Some e, f1) \<Rightarrow> (Some e, f1)
      | (None, f1) \<Rightarrow>
         (case node_at f1 (d @ rel) of
            Some Dir \<Rightarrow> (Some (Exc ''IsADirectoryError'' (path_str (d @ rel))), f1)
          | _ \<Rightarrow> (None, f1(d @ rel \<mapsto> File bytes))))"

text \<open>\<open>ZipFile.extractall(d)\<close>: the members in archive order, stopping at the first error.\<close>
fun extractall :: "path \<Rightarrow> zentry list \<Rightarrow> fsys \<Rightarrow> error option \<times> fsys" where
  "extractall d [] f = (None, f)"
| "extractall d (e # es) f =
     (case extract_entry d e f of
        (Some x, f1) \<Rightarrow> (Some x, f1)
      | (None, f1) \<Rightarrow> extractall d es f1)"

text \<open>\<open>zipfile.ZipFile(p, 'r')\<close>: the file is read when the object is made.\<close>
definition zip_open :: "'h ext \<Rightarrow> path \<Rightarrow> fsys \<Rightarrow> error + zentry list" where
  "zip_open E p f =
     (case node_at f p of
        None \<Rightarrow> Inl (Exc ''FileNotFoundError'' (path_str p))
      | Some Dir \<Rightarrow> Inl (Exc ''IsADirectoryError'' (path_str p))
      | Some (File bytes) \<Rightarrow>
         (case unzip E bytes of
            None \<Rightarrow> Inl (Exc ''BadZipFile'' ''File is not a zip file'')
          | Some es \<Rightarrow> Inr es))"

text \<open>A path argument given as a \<open>Path\<close> or as the string of an absolute path.\<close>
fun as_path :: "val \<Rightarrow> path option" where
  "as_path (VPath p) = Some p"
| "as_path (VStr s) = (if is_abs s then Some (components s) else None)"
| "as_path _ = None"

subsection \<open>Expressions\<close>

text \<open>
  The expression forms the notebook uses. An f-string is the list of its pieces: a
  literal piece is a \<open>Str\<close>, a replacement field is its expression, and every piece is
  formatted with \<open>str\<close>.
\<close>
datatype expr =
    Str string
  | Name name
  | Attr expr string
  | Call expr "expr list"
  | Index expr int
  | Eq expr expr
  | Ne expr expr
  | Not expr
  | Div expr expr
  | FStr "expr list"
  | ListE "expr list"

text \<open>
  The names Python and IPython provide without an import. Only those the notebook uses
  are listed; \<open>display\<close> is put among the builtins by IPython.
\<close>
definition builtin_names :: "name list" where
  "builtin_names = [''print'', ''str'', ''type'', ''display'', ''ImportError'']"

definition lookup :: "(name \<rightharpoonup> val) \<Rightarrow> name \<Rightarrow> val option" where
  "lookup n x =
     (case n x of
        Some v \<Rightarrow> Some v
      | None \<Rightarrow> (if x \<in> set builtin_names then Some (VBuiltin x) else None))"

definition type_error :: "string \<Rightarrow> error" where
  "type_error what = Exc ''TypeError'' what"

text \<open>The attributes of the values the language itself defines.\<close>
definition native_attr :: "val \<Rightarrow> string \<Rightarrow> val option" where
  "native_attr v a =
     (case v of
        VModule m \<Rightarrow>
          (if m = ''zipfile'' \<and> a = ''ZipFile'' then Some (VBuiltin ''zipfile.ZipFile'')
           else None)
      | VStr s \<Rightarrow> (if a = ''split'' then Some (VBound v a) else None)
      | VPath p \<Rightarrow>
          (if a \<in> set [''exists'', ''is_file'', ''mkdir'', ''unlink''] then Some (VBound v a)
           else None)
      | VZip es \<Rightarrow> (if a = ''extractall'' then Some (VBound v a) else None)
      | _ \<Rightarrow> None)"

text \<open>An external call: its effect on the world outside is kept also when it raises.\<close>
definition ext_invoke ::
  "'h ext \<Rightarrow> string \<Rightarrow> string \<Rightarrow> val list \<Rightarrow> 'h world \<Rightarrow> (error + val) \<times> 'h world" where
  "ext_invoke E obj meth args w =
     (case ext_method E obj meth args (outside w) of (r, p) \<Rightarrow> (r, set_outside p w))"

definition get_attr :: "'h ext \<Rightarrow> val \<Rightarrow> string \<Rightarrow> 'h world \<Rightarrow> (error + val) \<times> 'h world" where
  "get_attr E v a w =
     (case v of
        VExt obj \<Rightarrow> ext_invoke E obj ''__getattribute__'' [VStr a] w
      | _ \<Rightarrow>
         (case native_attr v a of
            None \<Rightarrow> (Inl (Exc ''AttributeError'' a), w)
          | Some r \<Rightarrow> (Inr r, w)))"

definition call_builtin ::
  "'h ext \<Rightarrow> string \<Rightarrow> val list \<Rightarrow> 'h world \<Rightarrow> (error + val) \<times> 'h world" where
  "call_builtin E f args w =
     (if f = ''print'' then
        (case those (map to_str args) of
           None \<Rightarrow> (Inl (unsupported ''print''), w)
         | Some ss \<Rightarrow> (Inr VNone, emit [Stdout (join_sp ss @ [CHR 0x0A])] w))
      else if f = ''display'' then (Inr VNone, emit (map Display args) w)
      else if f = ''str'' then
        (case args of
           [v] \<Rightarrow> (case to_str v of
                     None \<Rightarrow> (Inl (unsupported ''str''), w)
                   | Some s \<Rightarrow> (Inr (VStr s), w))
         | _ \<Rightarrow> (Inl (unsupported ''str''), w))
      else if f = ''type'' then
        (case args of
           [v] \<Rightarrow> (case type_name v of
                     None \<Rightarrow> (Inl (unsupported ''type''), w)
                   | Some t \<Rightarrow> (Inr (VType t), w))
         | _ \<Rightarrow> (Inl (unsupported ''type''), w))
      else if f = ''Markdown'' then
        (case args of
           [VStr s] \<Rightarrow> (Inr (VMarkdown s), w)
         | _ \<Rightarrow> (Inl (unsupported ''Markdown''), w))
      else if f = ''Path'' then
        (case args of
           [v] \<Rightarrow> (case as_path v of
                     None \<Rightarrow> (Inl (unsupported ''Path''), w)
                   | Some p \<Rightarrow> (Inr (VPath p), w))
         | _ \<Rightarrow> (Inl (unsupported ''Path''), w))
      else if f = ''ImportError'' then
        (case args of
           [] \<Rightarrow> (Inr (VExc (Exc ''ImportError'' [])), w)
         | [VStr s] \<Rightarrow> (Inr (VExc (Exc ''ImportError'' s)), w)
         | _ \<Rightarrow> (Inl (unsupported ''ImportError''), w))
      else if f = ''zipfile.ZipFile'' then
        (case args of
           [v, VStr mode] \<Rightarrow>
             (if mode = ''r'' then
                (case as_path v of
                   None \<Rightarrow> (Inl (unsupported ''ZipFile''), w)
                 | Some p \<Rightarrow>
                    (case zip_open E p (fs w) of
                       Inl e \<Rightarrow> (Inl e, w)
                     | Inr es \<Rightarrow> (Inr (VZip es), w)))
              else (Inl (unsupported ''ZipFile''), w))
         | _ \<Rightarrow> (Inl (unsupported ''ZipFile''), w))
      else (Inl (type_error ''not callable''), w))"

definition call_method ::
  "val \<Rightarrow> string \<Rightarrow> val list \<Rightarrow> 'h world \<Rightarrow> (error + val) \<times> 'h world" where
  "call_method recv m args w =
     (case recv of
        VStr s \<Rightarrow>
          (if m = ''split'' then
             (case args of
                [] \<Rightarrow> (Inr (VList (map VStr (split_ws [] s))), w)
              | [VStr sep] \<Rightarrow>
                  (if sep = [] then (Inl (Exc ''ValueError'' ''empty separator''), w)
                   else (Inr (VList (map VStr (split_at sep [] s))), w))
              | _ \<Rightarrow> (Inl (unsupported ''split''), w))
           else (Inl (type_error ''not callable''), w))
      | VPath p \<Rightarrow>
          (case args of
             [] \<Rightarrow>
               (if m = ''exists'' then (Inr (VBool (node_at (fs w) p \<noteq> None)), w)
                else if m = ''is_file'' then (Inr (VBool (is_file (fs w) p)), w)
                else if m = ''mkdir'' then
                  (case mkdir p (fs w) of
                     Inl e \<Rightarrow> (Inl e, w)
                   | Inr f \<Rightarrow> (Inr VNone, w\<lparr>fs := f\<rparr>))
                else if m = ''unlink'' then
                  (case unlink p (fs w) of
                     Inl e \<Rightarrow> (Inl e, w)
                   | Inr f \<Rightarrow> (Inr VNone, w\<lparr>fs := f\<rparr>))
                else (Inl (type_error ''not callable''), w))
           | _ \<Rightarrow> (Inl (unsupported m), w))
      | VZip es \<Rightarrow>
          (if m = ''extractall'' then
             (case args of
                [v] \<Rightarrow>
                  (case as_path v of
                     None \<Rightarrow> (Inl (unsupported ''extractall''), w)
                   | Some d \<Rightarrow>
                      (case extractall d es (fs w) of
                         (Some e, f) \<Rightarrow> (Inl e, w\<lparr>fs := f\<rparr>)
                       | (None, f) \<Rightarrow> (Inr VNone, w\<lparr>fs := f\<rparr>)))
              | _ \<Rightarrow> (Inl (unsupported ''extractall''), w))
           else (Inl (type_error ''not callable''), w))
      | _ \<Rightarrow> (Inl (type_error ''not callable''), w))"

definition call :: "'h ext \<Rightarrow> val \<Rightarrow> val list \<Rightarrow> 'h world \<Rightarrow> (error + val) \<times> 'h world" where
  "call E fv args w =
     (case fv of
        VBuiltin f \<Rightarrow> call_builtin E f args w
      | VBound recv m \<Rightarrow> call_method recv m args w
      | VExt f \<Rightarrow> ext_invoke E f ''__call__'' args w
      | _ \<Rightarrow> (Inl (type_error ''not callable''), w))"

definition index_val :: "val \<Rightarrow> int \<Rightarrow> error + val" where
  "index_val v i =
     (case v of
        VList xs \<Rightarrow>
          (case py_index xs i of
             None \<Rightarrow> Inl (Exc ''IndexError'' ''list index out of range'')
           | Some x \<Rightarrow> Inr x)
      | VStr s \<Rightarrow>
          (case py_index s i of
             None \<Rightarrow> Inl (Exc ''IndexError'' ''string index out of range'')
           | Some c \<Rightarrow> Inr (VStr [c]))
      | _ \<Rightarrow> Inl (type_error ''not subscriptable''))"

definition div_val :: "val \<Rightarrow> val \<Rightarrow> error + val" where
  "div_val a b =
     (case (a, b) of
        (VPath p, VStr s) \<Rightarrow> Inr (VPath (joinpath p s))
      | (VPath p, VPath q) \<Rightarrow> Inr (VPath q)
      | _ \<Rightarrow> Inl (type_error ''unsupported operand type(s) for /''))"

definition format_all :: "val list \<Rightarrow> error + val" where
  "format_all vs =
     (case those (map to_str vs) of
        None \<Rightarrow> Inl (unsupported ''format'')
      | Some ss \<Rightarrow> Inr (VStr (concat ss)))"

text \<open>
  Evaluation reads the namespace \<open>n\<close> and threads the world. The operands of a call are
  evaluated left to right, the callee first.
\<close>
fun eval :: "'h ext \<Rightarrow> (name \<rightharpoonup> val) \<Rightarrow> expr \<Rightarrow> 'h world \<Rightarrow> (error + val) \<times> 'h world"
  and eval_list ::
    "'h ext \<Rightarrow> (name \<rightharpoonup> val) \<Rightarrow> expr list \<Rightarrow> 'h world \<Rightarrow> (error + val list) \<times> 'h world"
where
  "eval E n (Str s) w = (Inr (VStr s), w)"
| "eval E n (Name x) w =
     (case lookup n x of
        None \<Rightarrow> (Inl (Exc ''NameError'' x), w)
      | Some v \<Rightarrow> (Inr v, w))"
| "eval E n (Attr e a) w =
     (case eval E n e w of
        (Inl x, w1) \<Rightarrow> (Inl x, w1)
      | (Inr v, w1) \<Rightarrow> get_attr E v a w1)"
| "eval E n (Call f args) w =
     (case eval E n f w of
        (Inl x, w1) \<Rightarrow> (Inl x, w1)
      | (Inr fv, w1) \<Rightarrow>
         (case eval_list E n args w1 of
            (Inl x, w2) \<Rightarrow> (Inl x, w2)
          | (Inr vs, w2) \<Rightarrow> call E fv vs w2))"
| "eval E n (Index e i) w =
     (case eval E n e w of
        (Inl x, w1) \<Rightarrow> (Inl x, w1)
      | (Inr v, w1) \<Rightarrow> (index_val v i, w1))"
| "eval E n (Eq a b) w =
     (case eval E n a w of
        (Inl x, w1) \<Rightarrow> (Inl x, w1)
      | (Inr u, w1) \<Rightarrow>
         (case eval E n b w1 of
            (Inl x, w2) \<Rightarrow> (Inl x, w2)
          | (Inr v, w2) \<Rightarrow> (Inr (VBool (u = v)), w2)))"
| "eval E n (Ne a b) w =
     (case eval E n a w of
        (Inl x, w1) \<Rightarrow> (Inl x, w1)
      | (Inr u, w1) \<Rightarrow>
         (case eval E n b w1 of
            (Inl x, w2) \<Rightarrow> (Inl x, w2)
          | (Inr v, w2) \<Rightarrow> (Inr (VBool (u \<noteq> v)), w2)))"
| "eval E n (Not e) w =
     (case eval E n e w of
        (Inl x, w1) \<Rightarrow> (Inl x, w1)
      | (Inr v, w1) \<Rightarrow> (Inr (VBool (\<not> truthy v)), w1))"
| "eval E n (Div a b) w =
     (case eval E n a w of
        (Inl x, w1) \<Rightarrow> (Inl x, w1)
      | (Inr u, w1) \<Rightarrow>
         (case eval E n b w1 of
            (Inl x, w2) \<Rightarrow> (Inl x, w2)
          | (Inr v, w2) \<Rightarrow> (div_val u v, w2)))"
| "eval E n (FStr es) w =
     (case eval_list E n es w of
        (Inl x, w1) \<Rightarrow> (Inl x, w1)
      | (Inr vs, w1) \<Rightarrow> (format_all vs, w1))"
| "eval E n (ListE es) w =
     (case eval_list E n es w of
        (Inl x, w1) \<Rightarrow> (Inl x, w1)
      | (Inr vs, w1) \<Rightarrow> (Inr (VList vs), w1))"
| "eval_list E n [] w = (Inr [], w)"
| "eval_list E n (e # es) w =
     (case eval E n e w of
        (Inl x, w1) \<Rightarrow> (Inl x, w1)
      | (Inr v, w1) \<Rightarrow>
         (case eval_list E n es w1 of
            (Inl x, w2) \<Rightarrow> (Inl x, w2)
          | (Inr vs, w2) \<Rightarrow> (Inr (v # vs), w2)))"

subsection \<open>Statements\<close>

text \<open>
  A piece of a shell line: literal text, or \<open>{expr}\<close> with its source text and its parse.
  A \<open>$NAME\<close> whose name is not a Python variable is literal text: IPython leaves it to
  the shell.
\<close>
datatype spart = SLit string | SExp string expr

datatype stmt =
    Import string name
  | FromImport string "name list"
  | Assign name expr
  | AssignIndex name int expr
  | AssignShell name "spart list"
  | Shell "spart list"
  | ExprStmt expr
  | If expr "stmt list" "stmt list"
  | With expr "name option" "stmt list"
  | Try "stmt list" string "stmt list"
  | RaiseStmt expr

datatype outcome = Normal | Raise error

text \<open>
  The interpreter's state: the user namespace, the world, and the shell commands issued
  so far, each with the shell line it came from.
\<close>
record 'h state =
  ns :: "name \<rightharpoonup> val"
  wld :: "'h world"
  trace :: "(spart list \<times> string) list"

definition raw_cmd :: "spart list \<Rightarrow> string" where
  "raw_cmd ps = concat (map (\<lambda>p. case p of SLit s \<Rightarrow> s | SExp src e \<Rightarrow> ''{'' @ src @ ''}'') ps)"

text \<open>
  IPython expands the \<open>{expr}\<close> pieces of a shell line in the user namespace. \<open>None\<close>:
  a piece could not be evaluated or formatted.
\<close>
fun expand ::
  "'h ext \<Rightarrow> (name \<rightharpoonup> val) \<Rightarrow> spart list \<Rightarrow> 'h world \<Rightarrow> string option \<times> 'h world" where
  "expand E n [] w = (Some [], w)"
| "expand E n (SLit s # ps) w =
     (case expand E n ps w of (r, w1) \<Rightarrow> (map_option ((@) s) r, w1))"
| "expand E n (SExp src e # ps) w =
     (case eval E n e w of
        (Inl x, w1) \<Rightarrow> (None, w1)
      | (Inr v, w1) \<Rightarrow>
         (case to_str v of
            None \<Rightarrow> (None, w1)
          | Some t \<Rightarrow> (case expand E n ps w1 of (r, w2) \<Rightarrow> (map_option ((@) t) r, w2))))"

text \<open>When the expansion fails IPython hands the line to the shell as it was written.\<close>
definition cmd_text ::
  "'h ext \<Rightarrow> (name \<rightharpoonup> val) \<Rightarrow> spart list \<Rightarrow> 'h world \<Rightarrow> string \<times> 'h world" where
  "cmd_text E n ps w =
     (case expand E n ps w of
        (None, w1) \<Rightarrow> (raw_cmd ps, w1)
      | (Some t, w1) \<Rightarrow> (t, w1))"

text \<open>The modules of the standard library and of IPython that the notebook imports.\<close>
definition native_modules :: "string list" where
  "native_modules = [''zipfile'', ''pathlib'', ''IPython.display'']"

definition native_member :: "string \<Rightarrow> name \<Rightarrow> val option" where
  "native_member m x =
     (if m = ''pathlib'' \<and> x = ''Path'' then Some (VBuiltin ''Path'')
      else if m = ''IPython.display'' \<and> x = ''Markdown'' then Some (VBuiltin ''Markdown'')
      else if m = ''IPython.display'' \<and> x = ''display'' then Some (VBuiltin ''display'')
      else if m = ''zipfile'' \<and> x = ''ZipFile'' then Some (VBuiltin ''zipfile.ZipFile'')
      else None)"

definition cannot_import :: "name \<Rightarrow> error" where
  "cannot_import x = Exc ''ImportError'' (''cannot import name '' @ x)"

text \<open>
  \<open>from m import x1, x2, ...\<close> after \<open>m\<close> itself is imported: the names are fetched and
  bound one after the other. A name the module lacks is an \<open>ImportError\<close>.
\<close>
fun import_from :: "'h ext \<Rightarrow> string \<Rightarrow> name list \<Rightarrow> 'h state \<Rightarrow> outcome \<times> 'h state" where
  "import_from E m [] s = (Normal, s)"
| "import_from E m (x # xs) s =
     (if m \<in> set native_modules then
        (case native_member m x of
           None \<Rightarrow> (Raise (cannot_import x), s)
         | Some v \<Rightarrow> import_from E m xs (s\<lparr>ns := (ns s)(x \<mapsto> v)\<rparr>))
      else
        (case ext_invoke E m ''__getattribute__'' [VStr x] (wld s) of
           (Inl (Exc c msg), w1) \<Rightarrow>
             (Raise (if c = ''AttributeError'' then cannot_import x else Exc c msg),
              s\<lparr>wld := w1\<rparr>)
         | (Inr v, w1) \<Rightarrow> import_from E m xs (s\<lparr>ns := (ns s)(x \<mapsto> v), wld := w1\<rparr>)))"

text \<open>Importing the module itself; the state is the one after the import was tried.\<close>
definition import_module :: "'h ext \<Rightarrow> string \<Rightarrow> 'h state \<Rightarrow> outcome \<times> 'h state" where
  "import_module E m s =
     (if m \<in> set native_modules then (Normal, s)
      else
        (case ext_import E m (outside (wld s)) of
           (Some e, p) \<Rightarrow> (Raise e, s\<lparr>wld := set_outside p (wld s)\<rparr>)
         | (None, p) \<Rightarrow> (Normal, s\<lparr>wld := set_outside p (wld s)\<rparr>)))"

definition module_val :: "string \<Rightarrow> val" where
  "module_val m = (if m \<in> set native_modules then VModule m else VExt m)"

text \<open>
  \<open>except C:\<close> catches the instances of \<open>C\<close> and of its subclasses. Of the builtin
  hierarchy only the part below \<open>ImportError\<close> is tabulated.
\<close>
definition catches :: "string \<Rightarrow> error \<Rightarrow> bool" where
  "catches cls e =
     (case e of Exc c msg \<Rightarrow> c = cls \<or> (cls = ''ImportError'' \<and> c = ''ModuleNotFoundError''))"

text \<open>\<open>__enter__\<close> of a context manager.\<close>
definition enter :: "'h ext \<Rightarrow> val \<Rightarrow> 'h world \<Rightarrow> (error + val) \<times> 'h world" where
  "enter E cm w =
     (case cm of
        VZip es \<Rightarrow> (Inr cm, w)
      | VExt obj \<Rightarrow> ext_invoke E obj ''__enter__'' [] w
      | _ \<Rightarrow> (Inl (Exc ''AttributeError'' ''__enter__''), w))"

text \<open>
  \<open>__exit__\<close> of a context manager, run when the body is left, with the body's outcome.
  An external manager may raise, and may swallow the body's exception by returning a
  true value.
\<close>
definition leave :: "'h ext \<Rightarrow> val \<Rightarrow> outcome \<Rightarrow> 'h world \<Rightarrow> outcome \<times> 'h world" where
  "leave E cm r w =
     (case cm of
        VExt obj \<Rightarrow>
          (case ext_invoke E obj ''__exit__'' [] w of
             (Inl e, w1) \<Rightarrow> (Raise e, w1)
           | (Inr v, w1) \<Rightarrow> (if truthy v then Normal else r, w1))
      | _ \<Rightarrow> (r, w))"

fun exec :: "'h ext \<Rightarrow> stmt \<Rightarrow> 'h state \<Rightarrow> outcome \<times> 'h state"
  and exec_block :: "'h ext \<Rightarrow> stmt list \<Rightarrow> 'h state \<Rightarrow> outcome \<times> 'h state"
where
  "exec E (Import m x) s =
     (case import_module E m s of
        (Raise e, s1) \<Rightarrow> (Raise e, s1)
      | (Normal, s1) \<Rightarrow> (Normal, s1\<lparr>ns := (ns s1)(x \<mapsto> module_val m)\<rparr>))"
| "exec E (FromImport m xs) s =
     (case import_module E m s of
        (Raise e, s1) \<Rightarrow> (Raise e, s1)
      | (Normal, s1) \<Rightarrow> import_from E m xs s1)"
| "exec E (Assign x e) s =
     (case eval E (ns s) e (wld s) of
        (Inl er, w1) \<Rightarrow> (Raise er, s\<lparr>wld := w1\<rparr>)
      | (Inr v, w1) \<Rightarrow> (Normal, s\<lparr>ns := (ns s)(x \<mapsto> v), wld := w1\<rparr>))"
| "exec E (AssignIndex x i e) s =
     (case eval E (ns s) e (wld s) of
        (Inl er, w1) \<Rightarrow> (Raise er, s\<lparr>wld := w1\<rparr>)
      | (Inr v, w1) \<Rightarrow>
         (case lookup (ns s) x of
            None \<Rightarrow> (Raise (Exc ''NameError'' x), s\<lparr>wld := w1\<rparr>)
          | Some (VList xs) \<Rightarrow>
             (case py_update xs i v of
                None \<Rightarrow>
                  (Raise (Exc ''IndexError'' ''list assignment index out of range''),
                   s\<lparr>wld := w1\<rparr>)
              | Some ys \<Rightarrow> (Normal, s\<lparr>ns := (ns s)(x \<mapsto> VList ys), wld := w1\<rparr>))
          | Some other \<Rightarrow>
             (Raise (type_error ''does not support item assignment''), s\<lparr>wld := w1\<rparr>)))"
| "exec E (AssignShell x ps) s =
     (case cmd_text E (ns s) ps (wld s) of
        (cmd, w1) \<Rightarrow>
          (case sh_lines E cmd (outside w1) of
             (ls, p) \<Rightarrow>
               (Normal, s\<lparr>ns := (ns s)(x \<mapsto> VList (map VStr ls)),
                          wld := set_outside p w1,
                          trace := trace s @ [(ps, cmd)]\<rparr>)))"
| "exec E (Shell ps) s =
     (case cmd_text E (ns s) ps (wld s) of
        (cmd, w1) \<Rightarrow>
          (case sh E cmd (outside w1) of
             (status, p) \<Rightarrow>
               (Normal, s\<lparr>ns := (ns s)(''_exit_code'' \<mapsto> VInt status),
                          wld := set_outside p w1,
                          trace := trace s @ [(ps, cmd)]\<rparr>)))"
| "exec E (ExprStmt e) s =
     (case eval E (ns s) e (wld s) of
        (Inl er, w1) \<Rightarrow> (Raise er, s\<lparr>wld := w1\<rparr>)
      | (Inr v, w1) \<Rightarrow> (Normal, s\<lparr>wld := w1\<rparr>))"
| "exec E (If c yes no) s =
     (case eval E (ns s) c (wld s) of
        (Inl er, w1) \<Rightarrow> (Raise er, s\<lparr>wld := w1\<rparr>)
      | (Inr v, w1) \<Rightarrow>
         (if truthy v then exec_block E yes (s\<lparr>wld := w1\<rparr>)
          else exec_block E no (s\<lparr>wld := w1\<rparr>)))"
| "exec E (With e target body) s =
     (case eval E (ns s) e (wld s) of
        (Inl er, w1) \<Rightarrow> (Raise er, s\<lparr>wld := w1\<rparr>)
      | (Inr cm, w1) \<Rightarrow>
         (case enter E cm w1 of
            (Inl er, w2) \<Rightarrow> (Raise er, s\<lparr>wld := w2\<rparr>)
          | (Inr v, w2) \<Rightarrow>
             (case exec_block E body
                     (s\<lparr>ns := (case target of None \<Rightarrow> ns s | Some x \<Rightarrow> (ns s)(x \<mapsto> v)),
                        wld := w2\<rparr>) of
                (r, s1) \<Rightarrow>
                  (case leave E cm r (wld s1) of
                     (r1, w3) \<Rightarrow> (r1, s1\<lparr>wld := w3\<rparr>)))))"
| "exec E (Try body cls handler) s =
     (case exec_block E body s of
        (Normal, s1) \<Rightarrow> (Normal, s1)
      | (Raise er, s1) \<Rightarrow>
         (if catches cls er then exec_block E handler s1 else (Raise er, s1)))"
| "exec E (RaiseStmt e) s =
     (case eval E (ns s) e (wld s) of
        (Inl er, w1) \<Rightarrow> (Raise er, s\<lparr>wld := w1\<rparr>)
      | (Inr (VExc er), w1) \<Rightarrow> (Raise er, s\<lparr>wld := w1\<rparr>)
      | (Inr other, w1) \<Rightarrow>
         (Raise (type_error ''exceptions must derive from BaseException''), s\<lparr>wld := w1\<rparr>))"
| "exec_block E [] s = (Normal, s)"
| "exec_block E (c # cs) s =
     (case exec E c s of
        (Raise er, s1) \<Rightarrow> (Raise er, s1)
      | (Normal, s1) \<Rightarrow> exec_block E cs s1)"

subsection \<open>Cells and runs\<close>

text \<open>
  A cell is markdown or code; the flag of a code cell says that it starts with the cell
  magic \<open>%%capture\<close>, which discards what the cell prints and displays.
\<close>
datatype cell = MarkdownCell | CodeCell bool "stmt list"

fun exec_cell :: "'h ext \<Rightarrow> cell \<Rightarrow> 'h state \<Rightarrow> outcome \<times> 'h state" where
  "exec_cell E MarkdownCell s = (Normal, s)"
| "exec_cell E (CodeCell captured body) s =
     (case exec_block E body s of
        (r, s1) \<Rightarrow>
          (r, if captured then s1\<lparr>wld := (wld s1)\<lparr>out := out (wld s)\<rparr>\<rparr> else s1))"

text \<open>
  Running cells in order, from cell number \<open>i\<close>. When a cell raises, the session either
  stops there (\<open>halt i\<close>, as "Run All" does) or the next cell is run all the same (as a user
  stepping through the notebook can do, and as happens when the error is raised under
  \<open>%%capture\<close>). The result lists the cells that raised, with their errors.
\<close>
fun run ::
  "(nat \<Rightarrow> bool) \<Rightarrow> 'h ext \<Rightarrow> nat \<Rightarrow> cell list \<Rightarrow> 'h state \<Rightarrow> (nat \<times> error) list \<times> 'h state"
where
  "run halt E i [] s = ([], s)"
| "run halt E i (c # cs) s =
     (case exec_cell E c s of
        (Normal, s1) \<Rightarrow> run halt E (Suc i) cs s1
      | (Raise e, s1) \<Rightarrow>
         (if halt i then ([(i, e)], s1)
          else (case run halt E (Suc i) cs s1 of (es, s2) \<Rightarrow> ((i, e) # es, s2))))"

text \<open>A fresh kernel: nothing bound, nothing emitted, no command issued.\<close>
definition fresh :: "fsys \<Rightarrow> 'h \<Rightarrow> 'h state" where
  "fresh f h = \<lparr>ns = Map.empty, wld = \<lparr>fs = f, hidden = h, out = []\<rparr>, trace = []\<rparr>"

section \<open>The cells of the notebook\<close>

text \<open>
  The 46 cells, numbered from 0 as in the file. A markdown cell carries no code; a code
  cell that holds only comments has an empty body.
\<close>

definition quoted :: "string \<Rightarrow> string" where
  "quoted s = [CHR 0x27] @ s @ [CHR 0x27]"

definition insar_env :: string where
  "insar_env = ''/home/jovyan/.local/envs/insar_analysis''"

definition cell_1 :: cell where
  "cell_1 = CodeCell False
     [Import ''url_widget'' ''url_w'',
      Assign ''notebookUrl'' (Call (Attr (Name ''url_w'') ''URLWidget'') []),
      ExprStmt (Call (Name ''display'') [Name ''notebookUrl''])]"

text \<open>The six \<open>display(Markdown(f'...'))\<close> lines of the warning branch of cell 2.\<close>
definition warning_lines :: "stmt list" where
  \<open>warning_lines =
     [ExprStmt (Call (Name ''display'') [Call (Name ''Markdown'')
        [FStr [Str ''<text style=color:red><strong>WARNING:</strong></text>'']]]),
      ExprStmt (Call (Name ''display'') [Call (Name ''Markdown'')
        [FStr [Str ''<text style=color:red>This notebook should be run using the "insar_analysis" conda environment.</text>'']]]),
      ExprStmt (Call (Name ''display'') [Call (Name ''Markdown'')
        [FStr [Str ''<text style=color:red>It is currently using the "'',
               Index (Call (Attr (Index (Name ''env'') 0) ''split'') [Str ''/'']) (- 1),
               Str ''" environment.</text>'']]]),
      ExprStmt (Call (Name ''display'') [Call (Name ''Markdown'')
        [FStr [Str ''<text style=color:red>Select "insar_analysis" from the "Change Kernel" submenu of the "Kernel" menu.</text>'']]]),
      ExprStmt (Call (Name ''display'') [Call (Name ''Markdown'')
        [FStr [Str ''<text style=color:red>If the "insar_analysis" environment is not present, use <a href="'',
               Index (Call (Attr (Name ''notebookUrl'') ''split'') [Str ''/user'']) 0,
               Str ''/user/'',
               Index (Name ''user'') 0,
               Str ''/notebooks/conda_environments/Create_OSL_Conda_Environments.ipynb"> Create_OSL_Conda_Environments.ipynb </a> to create it.</text>'']]]),
      ExprStmt (Call (Name ''display'') [Call (Name ''Markdown'')
        [FStr [Str ''<text style=color:red>Note that you must restart your server after creating a new environment before it is usable by notebooks.</text>'']]])]\<close>

definition cell_2 :: cell where
  "cell_2 = CodeCell False
     [FromImport ''IPython.display'' [''Markdown''],
      FromImport ''IPython.display'' [''display''],
      Assign ''notebookUrl'' (Attr (Name ''notebookUrl'') ''value''),
      AssignShell ''user'' [SLit ''echo $JUPYTERHUB_USER''],
      AssignShell ''env'' [SLit ''echo $CONDA_PREFIX''],
      If (Eq (Index (Name ''env'') 0) (Str []))
         [AssignIndex ''env'' 0 (Str ''Python 3 (base)'')] [],
      If (Ne (Index (Name ''env'') 0) (Str insar_env)) warning_lines []]"

definition cell_4 :: cell where
  "cell_4 = CodeCell True
     [FromImport ''pathlib'' [''Path''],
      Import ''zipfile'' ''zipfile'',
      Try [Import ''numpy'' ''np'',
           FromImport ''mintpy''
             [''view'', ''tsview'', ''plot_network'', ''plot_transection'',
              ''plot_coherence_matrix'']]
          ''ImportError''
          [RaiseStmt (Call (Name ''ImportError'')
             [Str ''Looks like mintPy is not fully installed''])],
      Import ''opensarlab_lib'' ''asfn'']"

definition success_msg :: string where
  "success_msg = ''S3 pre-staged data retrieval was successfull''"

definition fallback_msg :: string where
  "fallback_msg =
     ''Download outside openSarLabs is not supported.'' @ [CHR 0x0A] @
     ''As alternative please start from ARIA-tools with the commandline calls provided at the top of this notebook''"

definition aws_line :: "spart list" where
  "aws_line =
     [SLit ''aws --region=us-west-2 --no-sign-request s3 cp s3://asf-jupyter-data-west/Fielding/Stack.zip '',
      SExp ''zipped_path'' (Name ''zipped_path'')]"

text \<open>Cell 5 up to and including the download command.\<close>
definition download :: "stmt list" where
  "download =
     [Assign ''work_dir'' (Call (Name ''Path'')
        [Str ''/home/jovyan/notebooks/SAR_Training/English/Hazards/data_LA'']),
      If (Not (Call (Attr (Name ''work_dir'') ''exists'') []))
         [ExprStmt (Call (Attr (Name ''work_dir'') ''mkdir'') [])] [],
      Assign ''zipped_path'' (Div (Name ''work_dir'') (Str ''Stack.zip'')),
      Shell aws_line]"

text \<open>The rest of cell 5: \<open>if zipped_path.is_file(): ... else: ...\<close>.\<close>
definition download_check :: stmt where
  "download_check =
     If (Call (Attr (Name ''zipped_path'') ''is_file'') [])
        [With (Call (Attr (Name ''zipfile'') ''ZipFile'')
                 [Call (Name ''str'') [Name ''zipped_path''], Str ''r''])
              (Some ''zip_ref'')
              [ExprStmt (Call (Attr (Name ''zip_ref'') ''extractall'') [Name ''work_dir''])],
         ExprStmt (Call (Name ''print'') [Str success_msg]),
         ExprStmt (Call (Attr (Name ''zipped_path'') ''unlink'') [])]
        [ExprStmt (Call (Name ''print'') [Str fallback_msg])]"

definition cell_5 :: cell where
  "cell_5 = CodeCell False (download @ [download_check])"

definition cell_13 :: cell where
  "cell_13 = CodeCell False [Shell [SLit ''smallbaselineApp.py --help'']]"

definition cp_line :: "spart list" where
  "cp_line =
     [SLit ''cp '',
      SExp (''work_dir/'' @ quoted ''LASenDT71.txt'')
           (Div (Name ''work_dir'') (Str ''LASenDT71.txt'')),
      SLit '' '',
      SExp ''mint_dir'' (Name ''mint_dir'')]"

definition load_data_line :: "spart list" where
  "load_data_line = [SLit ''smallbaselineApp.py 'LASenDT71.txt' --dostep load_data'']"

definition modify_network_line :: "spart list" where
  "modify_network_line =
     [SLit ''smallbaselineApp.py 'LASenDT71.txt' --dostep modify_network '']"

definition reference_point_line :: "spart list" where
  "reference_point_line = [SLit ''smallbaselineApp.py LASenDT71.txt --dostep reference_point'']"

definition invert_network_line :: "spart list" where
  "invert_network_line = [SLit ''smallbaselineApp.py LASenDT71.txt --dostep invert_network'']"

definition velocity_line :: "spart list" where
  "velocity_line = [SLit ''smallbaselineApp.py LASenDT71.txt --dostep velocity'']"

definition google_earth_line :: "spart list" where
  "google_earth_line = [SLit ''smallbaselineApp.py smallbaselineApp.cfg --dostep google_earth'']"

text \<open>\<open>with asfn.work_dir(mint_dir):\<close>, the header of every step but the last.\<close>
definition in_mint_dir :: "stmt list \<Rightarrow> stmt" where
  "in_mint_dir body =
     With (Call (Attr (Name ''asfn'') ''work_dir'') [Name ''mint_dir'']) None body"

text \<open>Cell 15 before its shell lines: the MintPy directory is named, printed and made.\<close>
definition setup_15 :: "stmt list" where
  "setup_15 =
     [Assign ''mint_dir'' (Div (Name ''work_dir'') (Str ''MintPy'')),
      ExprStmt (Call (Name ''print'')
        [Name ''mint_dir'', Call (Name ''type'') [Name ''mint_dir'']]),
      If (Not (Call (Attr (Name ''mint_dir'') ''exists'') []))
         [ExprStmt (Call (Attr (Name ''mint_dir'') ''mkdir'') [])] []]"

definition cell_15 :: cell where
  "cell_15 = CodeCell False (setup_15 @ [Shell cp_line, in_mint_dir [Shell load_data_line]])"

definition stack_h5 :: spart where
  "stack_h5 =
     SExp (''input_dir/'' @ quoted ''ifgramStack.h5'')
          (Div (Name ''input_dir'') (Str ''ifgramStack.h5''))"

definition cell_17 :: cell where
  "cell_17 = CodeCell False
     [Assign ''input_dir'' (Div (Name ''mint_dir'') (Str ''inputs'')),
      Shell [SLit ''ls '', SExp ''input_dir'' (Name ''input_dir'')]]"

definition cell_19 :: cell where
  "cell_19 = CodeCell False [Shell [SLit ''info.py '', stack_h5]]"

definition cell_20 :: cell where
  "cell_20 = CodeCell False
     [Shell [SLit ''info.py '',
             SExp (''input_dir/'' @ quoted ''geometryGeo.h5'')
                  (Div (Name ''input_dir'') (Str ''geometryGeo.h5''))]]"

definition cell_22 :: cell where
  "cell_22 = CodeCell False
     [in_mint_dir
        [Shell modify_network_line,
         ExprStmt (Call (Attr (Name ''plot_network'') ''main'')
           [ListE [Call (Name ''str'')
              [Div (Name ''input_dir'') (Str ''ifgramStack.h5'')]]])]]"

definition cell_24 :: cell where
  "cell_24 = CodeCell False
     [Shell [SLit ''generate_mask.py  '', stack_h5, SLit ''  --nonzero  -o '',
             SExp (''input_dir/'' @ quoted ''maskConnComp.h5'')
                  (Div (Name ''input_dir'') (Str ''maskConnComp.h5'')),
             SLit ''  --update''],
      ExprStmt (Call (Attr (Name ''view'') ''main'')
        [ListE [Call (Name ''str'')
           [Div (Name ''input_dir'') (Str ''maskConnComp.h5'')]]])]"

definition cell_27 :: cell where
  "cell_27 = CodeCell False [in_mint_dir [Shell reference_point_line]]"

definition cell_29 :: cell where
  "cell_29 = CodeCell False
     [Shell [SLit ''info.py '', stack_h5, SLit ('' | egrep '' @ quoted ''REF_'')]]"

definition cell_31 :: cell where
  "cell_31 = CodeCell False [in_mint_dir [Shell invert_network_line]]"

definition cell_33 :: cell where
  "cell_33 = CodeCell False [in_mint_dir [Shell velocity_line]]"

text \<open>\<open>scp_args = f'{mint_dir}<rest>'\<close> followed by \<open><module>.main(scp_args.split())\<close>.\<close>
definition plot_args :: "string \<Rightarrow> string \<Rightarrow> stmt list" where
  "plot_args rest module =
     [Assign ''scp_args'' (FStr [Name ''mint_dir'', Str rest]),
      ExprStmt (Call (Attr (Name module) ''main'')
        [Call (Attr (Name ''scp_args'') ''split'') []])]"

definition cell_34 :: cell where
  "cell_34 = CodeCell False (plot_args ''/velocity.h5 velocity -v -1 1'' ''view'')"

definition cell_37 :: cell where
  "cell_37 = CodeCell False
     [ExprStmt (Call (Attr (Name ''view'') ''main'')
        [ListE [FStr [Name ''mint_dir'', Str ''/avgSpatialCoh.h5'']]])]"

definition cell_39 :: cell where
  "cell_39 = CodeCell False
     [ExprStmt (Call (Attr (Name ''view'') ''main'')
        [ListE [FStr [Name ''mint_dir'', Str ''/temporalCoherence.h5'']]])]"

definition cell_41 :: cell where
  "cell_41 = CodeCell False (plot_args ''/velocity.h5 velocityStd -v 0 0.2'' ''view'')"

text \<open>Cell 43 before its \<open>with\<close> statement.\<close>
definition transect :: "stmt list" where
  "transect =
     plot_args ''/velocity.h5 --start-lalo 33.75 -118.38 --end-lalo 33.72 -118.3 ''
       ''plot_transection''"

text \<open>\<open>with contextSwitch(mint_dir): !smallbaselineApp.py ... google_earth\<close>.\<close>
definition google_earth_stmt :: stmt where
  "google_earth_stmt =
     With (Call (Name ''contextSwitch'') [Name ''mint_dir'']) None [Shell google_earth_line]"

definition cell_43 :: cell where
  "cell_43 = CodeCell False (transect @ [google_earth_stmt])"

definition comments_only :: cell where
  "comments_only = CodeCell False []"

definition notebook :: "cell list" where
  "notebook =
     [MarkdownCell, cell_1, cell_2, MarkdownCell, cell_4, cell_5, MarkdownCell,
      comments_only, MarkdownCell, comments_only, MarkdownCell, comments_only,
      MarkdownCell, cell_13, MarkdownCell, cell_15, MarkdownCell, cell_17, MarkdownCell,
      cell_19, cell_20, MarkdownCell, cell_22, MarkdownCell, cell_24, comments_only,
      MarkdownCell, cell_27, MarkdownCell, cell_29, MarkdownCell, cell_31, MarkdownCell,
      cell_33, cell_34, MarkdownCell, MarkdownCell, cell_37, MarkdownCell, cell_39,
      MarkdownCell, cell_41, MarkdownCell, cell_43, MarkdownCell, MarkdownCell]"

section \<open>What the code of the notebook contains\<close>

fun cell_body :: "cell \<Rightarrow> stmt list" where
  "cell_body MarkdownCell = []"
| "cell_body (CodeCell captured body) = body"

text \<open>The statements of a list of cells, in the order of the file.\<close>
definition code :: "cell list \<Rightarrow> stmt list" where
  "code cs = concat (map cell_body cs)"

text \<open>The shell lines written in a statement, in program order.\<close>
fun shells :: "stmt \<Rightarrow> spart list list"
  and shells_block :: "stmt list \<Rightarrow> spart list list" where
  "shells (Import m x) = []"
| "shells (FromImport m xs) = []"
| "shells (Assign x e) = []"
| "shells (AssignIndex x i e) = []"
| "shells (AssignShell x ps) = [ps]"
| "shells (Shell ps) = [ps]"
| "shells (ExprStmt e) = []"
| "shells (If c yes no) = shells_block yes @ shells_block no"
| "shells (With e target body) = shells_block body"
| "shells (Try body cls handler) = shells_block body @ shells_block handler"
| "shells (RaiseStmt e) = []"
| "shells_block [] = []"
| "shells_block (c # cs) = shells c @ shells_block cs"

text \<open>The names a statement can bind; \<open>!cmd\<close> binds \<open>_exit_code\<close>.\<close>
fun binds :: "stmt \<Rightarrow> name list"
  and binds_block :: "stmt list \<Rightarrow> name list" where
  "binds (Import m x) = [x]"
| "binds (FromImport m xs) = xs"
| "binds (Assign x e) = [x]"
| "binds (AssignIndex x i e) = [x]"
| "binds (AssignShell x ps) = [x]"
| "binds (Shell ps) = [''_exit_code'']"
| "binds (ExprStmt e) = []"
| "binds (If c yes no) = binds_block yes @ binds_block no"
| "binds (With e target body) =
     (case target of None \<Rightarrow> [] | Some x \<Rightarrow> [x]) @ binds_block body"
| "binds (Try body cls handler) = binds_block body @ binds_block handler"
| "binds (RaiseStmt e) = []"
| "binds_block [] = []"
| "binds_block (c # cs) = binds c @ binds_block cs"

text \<open>The names an expression reads.\<close>
fun reads_expr :: "expr \<Rightarrow> name list"
  and reads_exprs :: "expr list \<Rightarrow> name list" where
  "reads_expr (Str s) = []"
| "reads_expr (Name x) = [x]"
| "reads_expr (Attr e a) = reads_expr e"
| "reads_expr (Call f args) = reads_expr f @ reads_exprs args"
| "reads_expr (Index e i) = reads_expr e"
| "reads_expr (Eq a b) = reads_expr a @ reads_expr b"
| "reads_expr (Ne a b) = reads_expr a @ reads_expr b"
| "reads_expr (Not e) = reads_expr e"
| "reads_expr (Div a b) = reads_expr a @ reads_expr b"
| "reads_expr (FStr es) = reads_exprs es"
| "reads_expr (ListE es) = reads_exprs es"
| "reads_exprs [] = []"
| "reads_exprs (e # es) = reads_expr e @ reads_exprs es"

fun reads_line :: "spart list \<Rightarrow> name list" where
  "reads_line [] = []"
| "reads_line (SLit t # ps) = reads_line ps"
| "reads_line (SExp src e # ps) = reads_expr e @ reads_line ps"

text \<open>The names a statement reads.\<close>
fun reads :: "stmt \<Rightarrow> name list"
  and reads_block :: "stmt list \<Rightarrow> name list" where
  "reads (Import m x) = []"
| "reads (FromImport m xs) = []"
| "reads (Assign x e) = reads_expr e"
| "reads (AssignIndex x i e) = x # reads_expr e"
| "reads (AssignShell x ps) = reads_line ps"
| "reads (Shell ps) = reads_line ps"
| "reads (ExprStmt e) = reads_expr e"
| "reads (If c yes no) = reads_expr c @ reads_block yes @ reads_block no"
| "reads (With e target body) = reads_expr e @ reads_block body"
| "reads (Try body cls handler) = reads_block body @ reads_block handler"
| "reads (RaiseStmt e) = reads_expr e"
| "reads_block [] = []"
| "reads_block (c # cs) = reads c @ reads_block cs"

text \<open>The exception classes of the \<open>except\<close> clauses in a statement.\<close>
fun excepts :: "stmt \<Rightarrow> string list"
  and excepts_block :: "stmt list \<Rightarrow> string list" where
  "excepts (If c yes no) = excepts_block yes @ excepts_block no"
| "excepts (With e target body) = excepts_block body"
| "excepts (Try body cls handler) = excepts_block body @ cls # excepts_block handler"
| "excepts (Import m x) = []"
| "excepts (FromImport m xs) = []"
| "excepts (Assign x e) = []"
| "excepts (AssignIndex x i e) = []"
| "excepts (AssignShell x ps) = []"
| "excepts (Shell ps) = []"
| "excepts (ExprStmt e) = []"
| "excepts (RaiseStmt e) = []"
| "excepts_block [] = []"
| "excepts_block (c # cs) = excepts c @ excepts_block cs"

text \<open>The operands of the \<open>raise\<close> statements in a statement.\<close>
fun raises :: "stmt \<Rightarrow> expr list"
  and raises_block :: "stmt list \<Rightarrow> expr list" where
  "raises (If c yes no) = raises_block yes @ raises_block no"
| "raises (With e target body) = raises_block body"
| "raises (Try body cls handler) = raises_block body @ raises_block handler"
| "raises (RaiseStmt e) = [e]"
| "raises (Import m x) = []"
| "raises (FromImport m xs) = []"
| "raises (Assign x e) = []"
| "raises (AssignIndex x i e) = []"
| "raises (AssignShell x ps) = []"
| "raises (Shell ps) = []"
| "raises (ExprStmt e) = []"
| "raises_block [] = []"
| "raises_block (c # cs) = raises c @ raises_block cs"

text \<open>The conditions of the \<open>if\<close> statements in a statement.\<close>
fun conds :: "stmt \<Rightarrow> expr list"
  and conds_block :: "stmt list \<Rightarrow> expr list" where
  "conds (If c yes no) = c # conds_block yes @ conds_block no"
| "conds (With e target body) = conds_block body"
| "conds (Try body cls handler) = conds_block body @ conds_block handler"
| "conds (RaiseStmt e) = []"
| "conds (Import m x) = []"
| "conds (FromImport m xs) = []"
| "conds (Assign x e) = []"
| "conds (AssignIndex x i e) = []"
| "conds (AssignShell x ps) = []"
| "conds (Shell ps) = []"
| "conds (ExprStmt e) = []"
| "conds_block [] = []"
| "conds_block (c # cs) = conds c @ conds_block cs"

text \<open>The numbers of the cells in which \<open>f\<close> finds something.\<close>
definition cells_with :: "(stmt list \<Rightarrow> 'a list) \<Rightarrow> cell list \<Rightarrow> nat list" where
  "cells_with f cs = map fst (filter (\<lambda>(i, c). f (cell_body c) \<noteq> []) (enumerate 0 cs))"

subsection \<open>Reading a command line\<close>

text \<open>
  The words of a command line as the shell passes them to the program, for the lines
  the notebook writes: split at white space, a pair of single quotes around a word
  removed.
\<close>
definition unquote :: "string \<Rightarrow> string" where
  "unquote w =
     (if 2 \<le> length w \<and> hd w = CHR 0x27 \<and> last w = CHR 0x27 then butlast (tl w) else w)"

definition words :: "string \<Rightarrow> string list" where
  "words cmd = map unquote (split_ws [] cmd)"

fun arg_after :: "string \<Rightarrow> string list \<Rightarrow> string option" where
  "arg_after k [] = None"
| "arg_after k [x] = None"
| "arg_after k (x # y # ys) = (if x = k then Some y else arg_after k (y # ys))"

text \<open>The step a command passes to \<open>smallbaselineApp.py\<close> with \<open>--dostep\<close>, if any.\<close>
definition step_of :: "string \<Rightarrow> string option" where
  "step_of cmd =
     (case words cmd of
        [] \<Rightarrow> None
      | prog # args \<Rightarrow>
          (if prog = ''smallbaselineApp.py'' then arg_after ''--dostep'' args else None))"

text \<open>
  The configuration file a command passes to \<open>smallbaselineApp.py\<close>: its first
  argument, unless that is an option.
\<close>
definition config_of :: "string \<Rightarrow> string option" where
  "config_of cmd =
     (case words cmd of
        prog # a # args \<Rightarrow>
          (if prog = ''smallbaselineApp.py'' \<and> take 1 a \<noteq> ''-'' then Some a else None)
      | _ \<Rightarrow> None)"

text \<open>The steps passed to the pipeline by the commands of a trace, in order.\<close>
definition steps_run :: "(spart list \<times> string) list \<Rightarrow> string list" where
  "steps_run t = List.map_filter (\<lambda>(ps, cmd). step_of cmd) t"

text \<open>The invocations of \<open>smallbaselineApp.py\<close> among shell lines: step and configuration file.\<close>
definition invocations :: "spart list list \<Rightarrow> (string option \<times> string option) list" where
  "invocations ls =
     map (\<lambda>ps. (step_of (raw_cmd ps), config_of (raw_cmd ps)))
       (filter (\<lambda>ps. take 1 (words (raw_cmd ps)) = [''smallbaselineApp.py'']) ls)"

subsection \<open>Runs\<close>

text \<open>The commands issued between two states of one run.\<close>
definition issued :: "'h state \<Rightarrow> 'h state \<Rightarrow> (spart list \<times> string) list" where
  "issued s s' = drop (length (trace s)) (trace s')"

text \<open>
  \<open>s'\<close> comes after \<open>s\<close>, having issued some of the shell lines \<open>ls\<close> in their order and
  rebound at most the names \<open>xs\<close>.
\<close>
definition follows :: "'h state \<Rightarrow> 'h state \<Rightarrow> spart list list \<Rightarrow> name list \<Rightarrow> bool" where
  "follows s s' ls xs \<longleftrightarrow>
     (\<exists>t. trace s' = trace s @ t \<and> subseq (map fst t) ls) \<and>
     (\<forall>x. x \<notin> set xs \<longrightarrow> ns s' x = ns s x)"

text \<open>The state in which cell \<open>k\<close> is evaluated, in a run from a fresh kernel.\<close>
definition reach :: "(nat \<Rightarrow> bool) \<Rightarrow> 'h ext \<Rightarrow> fsys \<Rightarrow> 'h \<Rightarrow> nat \<Rightarrow> 'h state" where
  "reach halt E f h k = snd (run halt E 0 (take k notebook) (fresh f h))"

text \<open>The same collaborators, their commands exiting with the statuses \<open>st\<close> instead.\<close>
definition with_status :: "'h ext \<Rightarrow> (string \<Rightarrow> fsys \<times> 'h \<Rightarrow> int) \<Rightarrow> 'h ext" where
  "with_status E st = E\<lparr>sh := \<lambda>cmd p. (st cmd p, snd (sh E cmd p))\<rparr>"

text \<open>Two states that differ at most in what the name \<open>x\<close> is bound to.\<close>
definition same_but :: "name \<Rightarrow> 'h state \<Rightarrow> 'h state \<Rightarrow> bool" where
  "same_but x s t \<longleftrightarrow>
     wld s = wld t \<and> trace s = trace t \<and> (\<forall>y. y \<noteq> x \<longrightarrow> ns s y = ns t y)"

subsection \<open>A session in which every collaborator succeeds\<close>

definition hazards :: path where
  "hazards = [''home'', ''jovyan'', ''notebooks'', ''SAR_Training'', ''English'', ''Hazards'']"

definition data_LA :: path where
  "data_LA = hazards @ [''data_LA'']"

definition stack_zip :: path where
  "stack_zip = data_LA @ [''Stack.zip'']"

text \<open>
  Every import succeeds, every external call returns, every command exits with status 0.
  The download writes an archive with one member, the configuration file; \<open>echo\<close>
  prints the name of the expected environment; the URL widget holds a URL.
\<close>
definition lab :: "unit ext" where
  "lab =
     \<lparr>ext_import = (\<lambda>m p. (None, p)),
      ext_method = (\<lambda>obj meth args p.
        (if meth = ''__getattribute__'' then
           (case args of
              [VStr a] \<Rightarrow>
                (if a = ''value'' then Inr (VStr ''https://lab/user/u/notebooks/x.ipynb'')
                 else Inr (VExt (obj @ ''.'' @ a)))
            | _ \<Rightarrow> Inr VNone)
         else if meth = ''__call__'' then Inr (VExt (obj @ ''()''))
         else Inr VNone, p)),
      sh = (\<lambda>cmd p.
        (0, if take 4 cmd = ''aws '' then ((fst p)(stack_zip \<mapsto> File ''PK''), snd p) else p)),
      sh_lines = (\<lambda>cmd p. ([insar_env], p)),
      unzip = (\<lambda>b. if b = ''PK'' then Some [ZFile [''LASenDT71.txt''] ''cfg''] else None)\<rparr>"

text \<open>A file system that holds the directory of the notebook, its ancestors, and nothing else.\<close>
definition disk :: fsys where
  "disk p = (if prefix p hazards then Some Dir else None)"


text \<open>The states in which cell 5 is evaluated in the two sessions, with "Run All".\<close>
definition lab_5 :: "unit state" where
  "lab_5 = reach (\<lambda>_. True) lab disk () 5"


text \<open>The cells of the notebook other than cell 43.\<close>
definition others :: "cell list" where
  "others = take 43 notebook @ drop 44 notebook"

text \<open>A run that has stopped at an error: its last error is in a cell that halts.\<close>
definition halted :: "(nat \<Rightarrow> bool) \<Rightarrow> (nat \<times> error) list \<Rightarrow> bool" where
  "halted halt es = (es \<noteq> [] \<and> halt (fst (last es)))"

section \<open>The retrieval cell, in the words of the specification\<close>

text \<open>
  The namespace as cell 4 leaves it, as far as cell 5 reads it: \<open>Path\<close> and \<open>zipfile\<close>
  are what cell 4 imports, \<open>print\<close> and \<open>str\<close> are the builtins.
\<close>
definition after_setup :: "(name \<rightharpoonup> val) \<Rightarrow> bool" where
  "after_setup n \<longleftrightarrow>
     n ''Path'' = Some (VBuiltin ''Path'') \<and> n ''zipfile'' = Some (VModule ''zipfile'') \<and>
     n ''print'' = None \<and> n ''str'' = None"

text \<open>The download command of cell 5, with the path of the archive filled in.\<close>
definition aws_cmd :: string where
  "aws_cmd =
     ''aws --region=us-west-2 --no-sign-request s3 cp s3://asf-jupyter-data-west/Fielding/Stack.zip ''
     @ path_str stack_zip"

text \<open>Where a member of the archive goes when it is extracted into \<open>d\<close>.\<close>
fun target :: "path \<Rightarrow> zentry \<Rightarrow> path" where
  "target d (ZFile rel bytes) = d @ rel"
| "target d (ZDir rel) = d @ rel"

text \<open>
  The successful-retrieval branch: the archive is opened and extracted into the work
  directory, the success message is printed, the archive is deleted.
\<close>
definition unpack :: "'h ext \<Rightarrow> 'h world \<Rightarrow> outcome \<times> 'h world" where
  "unpack E w =
     (case zip_open E stack_zip (fs w) of
        Inl e \<Rightarrow> (Raise e, w)
      | Inr es \<Rightarrow>
         (case extractall data_LA es (fs w) of
            (Some e, f2) \<Rightarrow> (Raise e, w\<lparr>fs := f2\<rparr>)
          | (None, f2) \<Rightarrow>
             (case unlink stack_zip f2 of
                Inl e \<Rightarrow> (Raise e, emit [Stdout (success_msg @ [CHR 0x0A])] (w\<lparr>fs := f2\<rparr>))
              | Inr f3 \<Rightarrow> (Normal, emit [Stdout (success_msg @ [CHR 0x0A])] (w\<lparr>fs := f3\<rparr>)))))"

text \<open>What the file check after the download does to the world.\<close>
definition check_download :: "'h ext \<Rightarrow> 'h world \<Rightarrow> outcome \<times> 'h world" where
  "check_download E w =
     (if is_file (fs w) stack_zip then unpack E w
      else (Normal, emit [Stdout (fallback_msg @ [CHR 0x0A])] w))"

text \<open>
  The retrieval cell as a whole: the work directory is created when it is missing, the
  archive is downloaded, and the file check follows.
\<close>
definition retrieval :: "'h ext \<Rightarrow> 'h world \<Rightarrow> outcome \<times> 'h world" where
  "retrieval E w =
     (case (if node_at (fs w) data_LA = None then mkdir data_LA (fs w) else Inr (fs w)) of
        Inl e \<Rightarrow> (Raise e, w)
      | Inr f0 \<Rightarrow> check_download E (set_outside (snd (sh E aws_cmd (f0, hidden w))) w))"

text \<open>The namespace after the download command of cell 5 has run.\<close>
definition ready :: "(name \<rightharpoonup> val) \<Rightarrow> bool" where
  "ready n \<longleftrightarrow>
     n ''zipped_path'' = Some (VPath stack_zip) \<and> n ''work_dir'' = Some (VPath data_LA) \<and>
     n ''zipfile'' = Some (VModule ''zipfile'') \<and> n ''print'' = None \<and> n ''str'' = None"


text \<open>Every file of \<open>f\<close> is a file of \<open>g\<close>, every directory a directory.\<close>
definition keeps :: "fsys \<Rightarrow> fsys \<Rightarrow> bool" where
  "keeps f g \<longleftrightarrow>
     (\<forall>p. (is_file f p \<longrightarrow> is_file g p) \<and>
          (node_at f p = Some Dir \<longrightarrow> node_at g p = Some Dir))"

text \<open>The disk of the session \<open>lab\<close> after the download command of cell 5.\<close>
definition lab_fs :: fsys where
  "lab_fs = disk(data_LA \<mapsto> Dir, stack_zip \<mapsto> File ''PK'')"

text \<open>
  The session \<open>lab\<close>, except that \<open>plot_transection.main\<close> raises, as it does when
  \<open>velocity.h5\<close> is not there.
\<close>
definition plot_fails :: "unit ext" where
  "plot_fails =
     lab\<lparr>ext_method := (\<lambda>obj meth args p.
        if obj = ''mintpy.plot_transection.main'' \<and> meth = ''__call__''
        then (Inl (Exc ''FileNotFoundError'' ''velocity.h5''), p)
        else ext_method lab obj meth args p)\<rparr>"



text \<open>
  The outcome and the state of one execution agree with those of another up to what
  \<open>_exit_code\<close> is bound to.
\<close>
definition agree :: "outcome \<times> 'h state \<Rightarrow> outcome \<times> 'h state \<Rightarrow> bool" where
  "agree a b \<longleftrightarrow> fst b = fst a \<and> same_but ''_exit_code'' (snd a) (snd b)"

text \<open>The session \<open>lab\<close> with every command exiting with status 1.\<close>
definition failing :: "unit ext" where
  "failing = with_status lab (\<lambda>cmd p. 1)"

text \<open>
  The session \<open>lab\<close> with a shell in which \<open>echo $CONDA_PREFIX\<close> prints nothing, not
  even an empty line; the other \<open>echo\<close> prints \<open>jovyan\<close>.
\<close>
definition no_output :: "unit ext" where
  "no_output = lab\<lparr>sh_lines := \<lambda>cmd p. (if cmd = ''echo $CONDA_PREFIX'' then [] else [''jovyan''], p)\<rparr>"

text \<open>The session \<open>lab\<close> run with the kernel of the base environment.\<close>
definition base_env :: "unit ext" where
  "base_env =
     lab\<lparr>sh_lines := \<lambda>cmd p.
       (if cmd = ''echo $CONDA_PREFIX'' then [''/opt/conda''] else [''jovyan''], p)\<rparr>"

text \<open>The first of the six messages of the environment warning.\<close>
definition warning_head :: emitted where
  "warning_head = Display (VMarkdown ''<text style=color:red><strong>WARNING:</strong></text>'')"

text \<open>The six lines that pass a step to \<open>smallbaselineApp.py\<close>, as written in the notebook.\<close>
definition step_lines :: "spart list list" where
  "step_lines = [load_data_line, modify_network_line, reference_point_line, invert_network_line,
     velocity_line, google_earth_line]"

text \<open>
  Of the copy command of cell 15 and the step lines, the first that a run issued, if it
  issued any, is the copy command.
\<close>
definition copied_first :: "spart list list \<Rightarrow> bool" where
  "copied_first ls =
     (case filter (\<lambda>l. l \<in> set (cp_line # step_lines)) ls of
        [] \<Rightarrow> True
      | l # _ \<Rightarrow> l = cp_line)"

text \<open>The shell lines of the notebook but for the \<open>google_earth\<close> line of cell 43.\<close>
definition issued_lines :: "spart list list" where
  "issued_lines = filter (\<lambda>l. l \<noteq> google_earth_line) (shells_block (code notebook))"

section \<open>Unfolding the model\<close>

lemmas model_defs =
  lookup_def builtin_names_def get_attr_def native_attr_def ext_invoke_def call_def
  call_builtin_def call_method_def index_val_def div_val_def format_all_def cmd_text_def
  raw_cmd_def native_modules_def native_member_def import_module_def module_val_def
  catches_def enter_def leave_def outside_def set_outside_def emit_def py_index_def
  py_update_def Let_def unsupported_def type_error_def cannot_import_def node_at_def
  is_file_def mkdir_def unlink_def zip_open_def joinpath_def components_def path_str_def
  is_abs_def is_space_def quoted_def

lemmas cell_defs =
  cell_1_def cell_2_def cell_4_def cell_5_def cell_13_def cell_15_def cell_17_def cell_19_def
  cell_20_def cell_22_def cell_24_def cell_27_def cell_29_def cell_31_def cell_33_def
  cell_34_def cell_37_def cell_39_def cell_41_def cell_43_def comments_only_def setup_15_def
  warning_lines_def download_def download_check_def aws_line_def cp_line_def
  load_data_line_def modify_network_line_def reference_point_line_def
  invert_network_line_def velocity_line_def google_earth_line_def in_mint_dir_def
  stack_h5_def plot_args_def transect_def google_earth_stmt_def insar_env_def
  success_msg_def fallback_msg_def

lemmas lab_defs = lab_def disk_def hazards_def data_LA_def stack_zip_def fresh_def

section \<open>What a statement can issue and bind\<close>

text \<open>
  Execution issues shell lines of the statement only, in program order and each at most
  once, and leaves every name that the statement does not bind as it was.
\<close>

lemma follows_refl: "follows s s [] []"
  by (simp add: follows_def)

lemma follows_wld [simp]: "follows s (s'\<lparr>wld := w\<rparr>) ls xs = follows s s' ls xs"
  "follows (s\<lparr>wld := w\<rparr>) s' ls xs = follows s s' ls xs"
  by (simp_all add: follows_def)

lemma follows_trans:
  assumes "follows s s1 ls xs" "follows s1 s2 ms ys"
  shows "follows s s2 (ls @ ms) (xs @ ys)"
proof -
  from assms obtain t u where t: "trace s1 = trace s @ t" "subseq (map fst t) ls"
    and u: "trace s2 = trace s1 @ u" "subseq (map fst u) ms"
    by (auto simp: follows_def)
  have "trace s2 = trace s @ (t @ u)" using t u by simp
  moreover have "subseq (map fst (t @ u)) (ls @ ms)"
    using t u by (simp add: list_emb_append_mono)
  moreover have "\<forall>x. x \<notin> set (xs @ ys) \<longrightarrow> ns s2 x = ns s x"
    using assms by (simp add: follows_def)
  ultimately show ?thesis unfolding follows_def by blast
qed

lemma follows_weaken_left: "follows s s' ls xs \<Longrightarrow> follows s s' (ms @ ls) (ys @ xs)"
  using follows_trans [OF follows_refl, of s s' ls xs] 
  by (auto simp: follows_def intro: list_emb_append2)

lemma follows_weaken_right: "follows s s' ls xs \<Longrightarrow> follows s s' (ls @ ms) (xs @ ys)"
  using follows_trans [OF _ follows_refl, of s s' ls xs] by (auto simp: follows_def)

lemma import_module_follows: "import_module E m s = (r, s') \<Longrightarrow> follows s s' [] []"
  by (auto simp: import_module_def follows_def split: if_splits prod.splits option.splits)

lemma import_from_follows: "import_from E m xs s = (r, s') \<Longrightarrow> follows s s' [] xs"
proof (induction xs arbitrary: s)
  case Nil
  then show ?case by (simp add: follows_def)
next
  case (Cons x xs)
  show ?case
  proof (cases "m \<in> set native_modules")
    case True
    show ?thesis
    proof (cases "native_member m x")
      case None
      with True Cons.prems show ?thesis by (auto simp: follows_def)
    next
      case (Some v)
      with True Cons.prems have "import_from E m xs (s\<lparr>ns := (ns s)(x \<mapsto> v)\<rparr>) = (r, s')" by simp
      from Cons.IH [OF this] show ?thesis by (auto simp: follows_def)
    qed
  next
    case False
    obtain q w1 where q: "ext_invoke E m ''__getattribute__'' [VStr x] (wld s) = (q, w1)"
      by (cases "ext_invoke E m ''__getattribute__'' [VStr x] (wld s)")
    show ?thesis
    proof (cases q)
      case (Inl e)
      with False q Cons.prems show ?thesis
        by (cases e) (auto simp: follows_def)
    next
      case (Inr v)
      with False q Cons.prems
      have "import_from E m xs (s\<lparr>ns := (ns s)(x \<mapsto> v), wld := w1\<rparr>) = (r, s')" by simp
      from Cons.IH [OF this] show ?thesis by (auto simp: follows_def)
    qed
  qed
qed

lemma follows_step: "follows s (s\<lparr>wld := w\<rparr>) ls xs"
  by (simp add: follows_def)

lemma follows_bind: "follows s (s\<lparr>ns := (ns s)(x \<mapsto> v), wld := w\<rparr>) [] [x]"
  by (simp add: follows_def)

lemma follows_issue:
  "follows s (s\<lparr>ns := (ns s)(x \<mapsto> v), wld := w, trace := trace s @ [(ps, cmd)]\<rparr>) [ps] [x]"
  by (simp add: follows_def)

lemma exec_block_follows_aux:
  assumes "\<And>c s r s'. c \<in> set cs \<Longrightarrow> exec E c s = (r, s') \<Longrightarrow> follows s s' (shells c) (binds c)"
    and "exec_block E cs s = (r, s')"
  shows "follows s s' (shells_block cs) (binds_block cs)"
  using assms
proof (induction cs arbitrary: s)
  case Nil
  then show ?case by (simp add: follows_def)
next
  case (Cons c cs)
  obtain r1 s1 where c: "exec E c s = (r1, s1)" by (cases "exec E c s")
  have f1: "follows s s1 (shells c) (binds c)" using Cons.prems(1) c by simp
  show ?case
  proof (cases r1)
    case Normal
    with c Cons.prems(2) have "exec_block E cs s1 = (r, s')" by simp
    then have "follows s1 s' (shells_block cs) (binds_block cs)"
      using Cons.IH Cons.prems(1) by simp
    with f1 show ?thesis by (simp add: follows_trans)
  next
    case (Raise e)
    with c Cons.prems(2) have "s' = s1" by simp
    with f1 show ?thesis by (simp add: follows_weaken_right)
  qed
qed

lemma exec_follows: "exec E c s = (r, s') \<Longrightarrow> follows s s' (shells c) (binds c)"
proof (induction c arbitrary: s r s')
  case (Import m x)
  obtain r1 s1 where m: "import_module E m s = (r1, s1)" by (cases "import_module E m s")
  from import_module_follows [OF m] have "follows s s1 [] []" .
  moreover have "follows s1 s' [] [x]"
    using Import m by (cases r1) (auto simp: follows_def)
  ultimately show ?case using follows_trans by fastforce
next
  case (FromImport m xs)
  obtain r1 s1 where m: "import_module E m s = (r1, s1)" by (cases "import_module E m s")
  from import_module_follows [OF m] have a: "follows s s1 [] []" .
  show ?case
  proof (cases r1)
    case Normal
    with FromImport m have "import_from E m xs s1 = (r, s')" by simp
    from follows_trans [OF a import_from_follows [OF this]] show ?thesis by simp
  next
    case (Raise e)
    with FromImport m have "s' = s1" by simp
    with a show ?thesis using follows_weaken_right [of s s1 "[]" "[]" "[]" xs] by simp
  qed
next
  case (Assign x e)
  then show ?case by (auto split: prod.splits sum.splits simp: follows_def)
next
  case (AssignIndex x i e)
  then show ?case
    by (auto split: prod.splits sum.splits option.splits val.splits simp: follows_def)
next
  case (AssignShell x ps)
  then show ?case by (auto split: prod.splits simp: follows_def)
next
  case (Shell ps)
  then show ?case by (auto split: prod.splits simp: follows_def)
next
  case (ExprStmt e)
  then show ?case by (auto split: prod.splits sum.splits simp: follows_def)
next
  case (If c yes no)
  obtain q w1 where q: "eval E (ns s) c (wld s) = (q, w1)" by (cases "eval E (ns s) c (wld s)")
  show ?case
  proof (cases q)
    case (Inl e)
    with q If.prems show ?thesis by (auto simp: follows_def)
  next
    case (Inr v)
    show ?thesis
    proof (cases "truthy v")
      case True
      with q Inr If.prems have "exec_block E yes (s\<lparr>wld := w1\<rparr>) = (r, s')" by simp
      then have "follows (s\<lparr>wld := w1\<rparr>) s' (shells_block yes) (binds_block yes)"
        using If.IH(1) by (rule exec_block_follows_aux [rotated])
      then show ?thesis by (simp add: follows_weaken_right)
    next
      case False
      with q Inr If.prems have "exec_block E no (s\<lparr>wld := w1\<rparr>) = (r, s')" by simp
      then have "follows (s\<lparr>wld := w1\<rparr>) s' (shells_block no) (binds_block no)"
        using If.IH(2) by (rule exec_block_follows_aux [rotated])
      then show ?thesis by (simp add: follows_weaken_left)
    qed
  qed
next
  case (With e target body)
  obtain q w1 where q: "eval E (ns s) e (wld s) = (q, w1)" by (cases "eval E (ns s) e (wld s)")
  show ?case
  proof (cases q)
    case (Inl er)
    with q With.prems show ?thesis by (auto simp: follows_def)
  next
    case (Inr cm)
    obtain q2 w2 where q2: "enter E cm w1 = (q2, w2)" by (cases "enter E cm w1")
    show ?thesis
    proof (cases q2)
      case (Inl er)
      with q Inr q2 With.prems show ?thesis by (auto simp: follows_def)
    next
      case (Inr v)
      define sb where
        "sb = s\<lparr>ns := (case target of None \<Rightarrow> ns s | Some x \<Rightarrow> (ns s)(x \<mapsto> v)), wld := w2\<rparr>"
      obtain rb s1 where b: "exec_block E body sb = (rb, s1)" by (cases "exec_block E body sb")
      have "follows sb s1 (shells_block body) (binds_block body)"
        using b With.IH by (rule exec_block_follows_aux [rotated])
      moreover have "follows s sb [] (case target of None \<Rightarrow> [] | Some x \<Rightarrow> [x])"
        by (cases target) (simp_all add: sb_def follows_def)
      ultimately have "follows s s1 (shells_block body)
          ((case target of None \<Rightarrow> [] | Some x \<Rightarrow> [x]) @ binds_block body)"
        using follows_trans by fastforce
      moreover have "\<exists>w3. s' = s1\<lparr>wld := w3\<rparr>"
        using q \<open>q = Inr cm\<close> q2 Inr b With.prems
        by (auto simp: sb_def split: prod.splits)
      ultimately show ?thesis by auto
    qed
  qed
next
  case (Try body cls handler)
  obtain rb s1 where b: "exec_block E body s = (rb, s1)" by (cases "exec_block E body s")
  have f1: "follows s s1 (shells_block body) (binds_block body)"
    using b Try.IH(1) by (rule exec_block_follows_aux [rotated])
  show ?case
  proof (cases "\<exists>er. rb = Raise er \<and> catches cls er")
    case True
    with b Try.prems have "exec_block E handler s1 = (r, s')" by auto
    then have "follows s1 s' (shells_block handler) (binds_block handler)"
      using Try.IH(2) by (rule exec_block_follows_aux [rotated])
    with f1 show ?thesis by (simp add: follows_trans)
  next
    case False
    with b Try.prems have "s' = s1" by (cases rb) auto
    with f1 show ?thesis by (simp add: follows_weaken_right)
  qed
next
  case (RaiseStmt e)
  then show ?case by (auto split: prod.splits sum.splits val.splits simp: follows_def)
qed

lemma exec_block_follows:
  assumes "exec_block E cs s = (r, s')"
  shows "follows s s' (shells_block cs) (binds_block cs)"
  by (rule exec_block_follows_aux [OF _ assms]) (rule exec_follows)


section \<open>Runs of the notebook\<close>

lemma exec_cell_follows:
  assumes "exec_cell E c s = (r, s')"
  shows "follows s s' (shells_block (cell_body c)) (binds_block (cell_body c))"
proof (cases c)
  case MarkdownCell
  with assms show ?thesis by (simp add: follows_def)
next
  case (CodeCell captured body)
  obtain r1 s1 where b: "exec_block E body s = (r1, s1)" by (cases "exec_block E body s")
  from exec_block_follows [OF b] have "follows s s1 (shells_block body) (binds_block body)" .
  moreover have "\<exists>w. s' = s1\<lparr>wld := w\<rparr>"
    using assms CodeCell b by (cases captured) (auto intro: exI [of _ "wld s1"])
  ultimately show ?thesis using CodeCell by auto
qed

lemma follows_trace: "follows s s' [] xs \<Longrightarrow> trace s' = trace s"
  by (auto simp: follows_def dest: list_emb_Nil2)

lemma follows_ns: "follows s s' ls xs \<Longrightarrow> x \<notin> set xs \<Longrightarrow> ns s' x = ns s x"
  by (simp add: follows_def)

lemma follows_lines:
  assumes "follows s s' ls xs" and "ps \<notin> set ls" and "ps \<notin> fst ` set (trace s)"
  shows "ps \<notin> fst ` set (trace s')"
proof -
  from assms(1) obtain t where t: "trace s' = trace s @ t" "subseq (map fst t) ls"
    by (auto simp: follows_def)
  have "ps \<notin> set (map fst t)"
  proof
    assume "ps \<in> set (map fst t)"
    with t(2) obtain y where "y \<in> set ls" "ps = y" by (rule list_emb_set)
    with assms(2) show False by simp
  qed
  with t(1) assms(3) show ?thesis by auto
qed

lemma shells_block_append: "shells_block (a @ b) = shells_block a @ shells_block b"
  by (induction a) simp_all

lemma binds_block_append: "binds_block (a @ b) = binds_block a @ binds_block b"
  by (induction a) simp_all

lemma code_Cons: "code (c # cs) = cell_body c @ code cs"
  by (simp add: code_def)

lemma run_follows:
  "follows s (snd (run halt E i cs s)) (shells_block (code cs)) (binds_block (code cs))"
proof (induction cs arbitrary: i s)
  case Nil
  show ?case by (simp add: code_def follows_def)
next
  case (Cons c cs)
  obtain r s1 where c: "exec_cell E c s = (r, s1)" by (cases "exec_cell E c s")
  note f1 = exec_cell_follows [OF c]
  have a: "follows s (snd (run halt E (Suc i) cs s1)) (shells_block (code (c # cs)))
       (binds_block (code (c # cs)))"
    using follows_trans [OF f1 Cons.IH [of s1 "Suc i"]]
    by (simp add: code_Cons shells_block_append binds_block_append)
  have b: "follows s s1 (shells_block (code (c # cs))) (binds_block (code (c # cs)))"
    using follows_weaken_right [OF f1]
    by (simp add: code_Cons shells_block_append binds_block_append)
  show ?case
  proof (cases r)
    case Normal
    with c a show ?thesis by simp
  next
    case (Raise e)
    with c a b show ?thesis by (cases "halt i") (auto split: prod.splits)
  qed
qed

lemma run_invariant:
  assumes "P s"
    and "\<And>c t r t'. c \<in> set cs \<Longrightarrow> P t \<Longrightarrow> exec_cell E c t = (r, t') \<Longrightarrow> P t'"
  shows "P (snd (run halt E i cs s))"
  using assms
proof (induction cs arbitrary: i s)
  case Nil
  then show ?case by simp
next
  case (Cons c cs)
  obtain r s1 where c: "exec_cell E c s = (r, s1)" by (cases "exec_cell E c s")
  have p1: "P s1" using Cons.prems(2) [of c s r s1] Cons.prems(1) c by simp
  have ih: "P (snd (run halt E j cs s1))" for j
    by (rule Cons.IH [OF p1]) (use Cons.prems(2) in auto)
  show ?case
  proof (cases r)
    case Normal
    with c ih show ?thesis by simp
  next
    case (Raise e)
    show ?thesis
    proof (cases "halt i")
      case True
      with c Raise p1 show ?thesis by simp
    next
      case False
      with c Raise ih [of "Suc i"] show ?thesis by (auto split: prod.splits)
    qed
  qed
qed

text \<open>Cell 43 in any state that does not bind contextSwitch.\<close>
lemma google_earth_stmt_raises:
  assumes "ns s ''contextSwitch'' = None"
  shows "exec E google_earth_stmt s = (Raise (Exc ''NameError'' ''contextSwitch''), s)"
  using assms by (simp add: google_earth_stmt_def lookup_def builtin_names_def)

lemma exec_block_append:
  "exec_block E (a @ b) s =
     (case exec_block E a s of
        (Normal, s1) \<Rightarrow> exec_block E b s1
      | (Raise e, s1) \<Rightarrow> (Raise e, s1))"
  by (induction a arbitrary: s) (auto split: prod.splits outcome.splits)

lemma transect_static: "shells_block transect = []" "''contextSwitch'' \<notin> set (binds_block transect)"
  by (simp_all add: transect_def plot_args_def)

lemma cell_43_exec:
  assumes "ns s ''contextSwitch'' = None"
  shows "\<exists>e s'. exec_cell E cell_43 s = (Raise e, s') \<and> trace s' = trace s
           \<and> ns s' ''contextSwitch'' = None
           \<and> (fst (exec_block E transect s) = Normal \<longrightarrow> e = Exc ''NameError'' ''contextSwitch'')"
proof -
  obtain r1 s1 where t: "exec_block E transect s = (r1, s1)" by (cases "exec_block E transect s")
  from exec_block_follows [OF t] have f: "trace s1 = trace s" "ns s1 ''contextSwitch'' = None"
    using assms follows_trace [of s s1] follows_ns [of s s1 _ _ "''contextSwitch''"]
    by (simp_all add: transect_static)
  show ?thesis
  proof (cases r1)
    case Normal
    with t f show ?thesis
      by (simp add: cell_43_def exec_block_append google_earth_stmt_raises)
  next
    case (Raise e)
    with t f show ?thesis by (simp add: cell_43_def exec_block_append)
  qed
qed

lemma fresh_ns: "ns (fresh f h) x = None" and fresh_trace: "trace (fresh f h) = []"
  by (simp_all add: fresh_def)

lemma notebook_binds: "''contextSwitch'' \<notin> set (binds_block (code notebook))"
  by (simp add: notebook_def code_def cell_defs)

lemma reach_unbound: "ns (reach halt E f h k) ''contextSwitch'' = None"
proof -
  have "follows (fresh f h) (reach halt E f h k) (shells_block (code (take k notebook)))
      (binds_block (code (take k notebook)))"
    unfolding reach_def by (rule run_follows)
  moreover have "''contextSwitch'' \<notin> set (binds_block (code (take k notebook)))"
  proof -
    have "set (binds_block (code (take k notebook))) \<subseteq> set (binds_block (code notebook))"
    proof -
      have "binds_block (code notebook) =
          binds_block (code (take k notebook)) @ binds_block (code (drop k notebook))"
        using binds_block_append [of "code (take k notebook)" "code (drop k notebook)"]
        by (metis append_take_drop_id code_def concat_append map_append)
      then show ?thesis by simp
    qed
    with notebook_binds show ?thesis by blast
  qed
  ultimately show ?thesis using follows_ns fresh_ns by metis
qed

lemma notebook_split: "set notebook = insert cell_43 (set others)"
  by (simp add: notebook_def others_def) blast

lemma others_static:
  "list_all (\<lambda>c. google_earth_line \<notin> set (shells_block (cell_body c))) others"
  by (simp add: notebook_def others_def cell_defs)

lemma other_cells:
  assumes "c \<in> set notebook" "c \<noteq> cell_43"
  shows "google_earth_line \<notin> set (shells_block (cell_body c))"
  using assms others_static by (simp add: notebook_split list_all_iff)

lemma binds_cell_subset:
  "c \<in> set cs \<Longrightarrow> set (binds_block (cell_body c)) \<subseteq> set (binds_block (code cs))"
  by (induction cs) (auto simp: code_Cons binds_block_append)

lemma google_earth_invariant:
  assumes "c \<in> set notebook"
    and "ns t ''contextSwitch'' = None \<and> google_earth_line \<notin> fst ` set (trace t)"
    and "exec_cell E c t = (r, t')"
  shows "ns t' ''contextSwitch'' = None \<and> google_earth_line \<notin> fst ` set (trace t')"
proof (cases "c = cell_43")
  case True
  from assms(2) have "ns t ''contextSwitch'' = None" by simp
  from cell_43_exec [OF this, of E] obtain e s' where
    "exec_cell E cell_43 t = (Raise e, s')" "trace s' = trace t" "ns s' ''contextSwitch'' = None"
    by blast
  with True assms show ?thesis by simp
next
  case False
  note f = exec_cell_follows [OF assms(3)]
  have "''contextSwitch'' \<notin> set (binds_block (cell_body c))"
    using binds_cell_subset [OF assms(1)] notebook_binds by blast
  then have "ns t' ''contextSwitch'' = None"
    using follows_ns [OF f] assms(2) by simp
  moreover have "google_earth_line \<notin> fst ` set (trace t')"
    using follows_lines [OF f other_cells [OF assms(1) False]] assms(2) by simp
  ultimately show ?thesis by simp
qed

section \<open>The steps passed to the pipeline\<close>

text \<open>
  Claim C2, amended. The cell that invokes the last pipeline step, \<open>google_earth\<close>, is
  cell 43. It wraps the invocation in \<open>with contextSwitch(mint_dir):\<close>, and no statement
  of the notebook binds the name \<open>contextSwitch\<close>, which is no builtin either. So in
  every run of the notebook in order from a fresh kernel, whatever the collaborators do
  and whether or not the session stops at errors: evaluating cell 43 raises, it issues
  no command, and the \<open>google_earth\<close> line is never issued in the whole run. The error is
  the \<open>NameError\<close> for \<open>contextSwitch\<close> whenever the two statements before the
  \<open>with\<close> in that cell (the f-string and the call of \<open>plot_transection.main\<close>)
  complete; if one of them raises, the cell stops there with that error.
\<close>

theorem google_earth_never_invoked:
  "notebook ! 43 = cell_43
   \<and> ''contextSwitch'' \<notin> set (binds_block (code notebook))
   \<and> ''contextSwitch'' \<notin> set builtin_names
   \<and> (\<exists>e. fst (exec_cell E cell_43 (reach halt E f h 43)) = Raise e)
   \<and> (fst (exec_block E transect (reach halt E f h 43)) = Normal \<longrightarrow>
        fst (exec_cell E cell_43 (reach halt E f h 43)) = Raise (Exc ''NameError'' ''contextSwitch''))
   \<and> issued (reach halt E f h 43) (snd (exec_cell E cell_43 (reach halt E f h 43))) = []
   \<and> google_earth_line \<notin> fst ` set (trace (snd (run halt E 0 notebook (fresh f h))))"
proof -
  let ?s = "reach halt E f h 43"
  from cell_43_exec [OF reach_unbound, of E halt E f h 43] obtain e s' where
    c: "exec_cell E cell_43 ?s = (Raise e, s')" "trace s' = trace ?s"
       "fst (exec_block E transect ?s) = Normal \<longrightarrow> e = Exc ''NameError'' ''contextSwitch''"
    by blast
  have "ns (snd (run halt E 0 notebook (fresh f h))) ''contextSwitch'' = None
      \<and> google_earth_line \<notin> fst ` set (trace (snd (run halt E 0 notebook (fresh f h))))"
    by (rule run_invariant [where P = "\<lambda>s. ns s ''contextSwitch'' = None
          \<and> google_earth_line \<notin> fst ` set (trace s)"])
       (simp add: fresh_ns fresh_trace, rule google_earth_invariant)
  moreover have "notebook ! 43 = cell_43" by (simp add: notebook_def)
  moreover have "''contextSwitch'' \<notin> set builtin_names" by (simp add: builtin_names_def)
  ultimately show ?thesis using c notebook_binds by (simp add: issued_def)
qed

text \<open>
  The session \<open>lab\<close>, in which every collaborator succeeds, run from a fresh kernel with
  "Run All": the state in which cell 43 is evaluated.
\<close>

lemma run_append:
  "run halt E i (a @ b) s =
     (case run halt E i a s of
        (es, s1) \<Rightarrow>
          if halted halt es then (es, s1)
          else (case run halt E (i + length a) b s1 of (es', s2) \<Rightarrow> (es @ es', s2)))"
proof (induction a arbitrary: i s)
  case Nil
  show ?case by (simp add: halted_def split: prod.splits)
next
  case (Cons c a)
  obtain r s1 where c: "exec_cell E c s = (r, s1)" by (cases "exec_cell E c s")
  obtain es s2 where a: "run halt E (Suc i) a s1 = (es, s2)" by (cases "run halt E (Suc i) a s1")
  have h: "\<not> halt i \<Longrightarrow> halted halt ((i, e) # es) = halted halt es" for e
    by (simp add: halted_def)
  show ?case
  proof (cases r)
    case Normal
    with c a Cons.IH [of "Suc i" s1] show ?thesis by simp
  next
    case (Raise e)
    show ?thesis
    proof (cases "halt i")
      case True
      with c Raise show ?thesis by (simp add: halted_def)
    next
      case False
      with c Raise a Cons.IH [of "Suc i" s1] h [OF False, of e] show ?thesis
        by (simp split: prod.splits)
    qed
  qed
qed

lemma lab_before_43:
  "case run (\<lambda>_. True) lab 0 (take 43 notebook) (fresh disk ()) of
     (es, s) \<Rightarrow>
       es = [] \<and>
       steps_run (trace s) =
         [''load_data'', ''modify_network'', ''reference_point'', ''invert_network'', ''velocity'']
       \<and> fst (exec_block lab transect s) = Normal
       \<and> fst (exec_cell lab cell_43 s) = Raise (Exc ''NameError'' ''contextSwitch'')"
  by (simp add: notebook_def cell_defs lab_defs model_defs steps_run_def step_of_def words_def
      unquote_def List.map_filter_def)

lemma notebook_at_43: "notebook = take 43 notebook @ cell_43 # drop 44 notebook"
  by (simp add: notebook_def)

lemma drop_44: "drop 44 notebook = [MarkdownCell, MarkdownCell]"
  by (simp add: notebook_def)

lemma lab_session:
  "fst (run (\<lambda>_. True) lab 0 notebook (fresh disk ())) = [(43, Exc ''NameError'' ''contextSwitch'')]"
  "steps_run (trace (snd (run (\<lambda>_. True) lab 0 notebook (fresh disk ())))) =
     [''load_data'', ''modify_network'', ''reference_point'', ''invert_network'', ''velocity'']"
proof -
  obtain es s where r: "run (\<lambda>_. True) lab 0 (take 43 notebook) (fresh disk ()) = (es, s)"
    by (cases "run (\<lambda>_. True) lab 0 (take 43 notebook) (fresh disk ())")
  with lab_before_43 have f: "es = []"
    "steps_run (trace s) =
      [''load_data'', ''modify_network'', ''reference_point'', ''invert_network'', ''velocity'']"
    "fst (exec_cell lab cell_43 s) = Raise (Exc ''NameError'' ''contextSwitch'')"
    by simp_all
  have "ns s ''contextSwitch'' = None"
    using reach_unbound [of "\<lambda>_. True" lab disk "()" 43] r by (simp add: reach_def)
  from cell_43_exec [OF this, of lab] f(3) obtain s' where
    c: "exec_cell lab cell_43 s = (Raise (Exc ''NameError'' ''contextSwitch''), s')"
      "trace s' = trace s"
    by auto
  have "run (\<lambda>_. True) lab 0 (take 43 notebook @ cell_43 # drop 44 notebook) (fresh disk ()) =
      ([(43, Exc ''NameError'' ''contextSwitch'')], s')"
    unfolding run_append using r f(1) c(1) by (simp add: halted_def notebook_def)
  then have "run (\<lambda>_. True) lab 0 notebook (fresh disk ()) =
      ([(43, Exc ''NameError'' ''contextSwitch'')], s')"
    using notebook_at_43 by simp
  with f(2) c(2) show
    "fst (run (\<lambda>_. True) lab 0 notebook (fresh disk ())) = [(43, Exc ''NameError'' ''contextSwitch'')]"
    "steps_run (trace (snd (run (\<lambda>_. True) lab 0 notebook (fresh disk ())))) =
     [''load_data'', ''modify_network'', ''reference_point'', ''invert_network'', ''velocity'']"
    by (simp_all add: steps_run_def)
qed

lemma written_invocations:
  "invocations (shells_block (code notebook)) =
     [(None, None),
      (Some ''load_data'', Some ''LASenDT71.txt''),
      (Some ''modify_network'', Some ''LASenDT71.txt''),
      (Some ''reference_point'', Some ''LASenDT71.txt''),
      (Some ''invert_network'', Some ''LASenDT71.txt''),
      (Some ''velocity'', Some ''LASenDT71.txt''),
      (Some ''google_earth'', Some ''smallbaselineApp.cfg'')]"
  by (simp add: notebook_def code_def cell_defs invocations_def step_of_def config_of_def
      words_def unquote_def raw_cmd_def is_space_def)

text \<open>
  Witness of C2: in the session \<open>lab\<close> the statements before the \<open>with\<close> of cell 43
  complete, and the cell raises the \<open>NameError\<close>.
\<close>

theorem google_earth_never_invoked_witness:
  "fst (exec_block lab transect (reach (\<lambda>_. True) lab disk () 43)) = Normal
   \<and> fst (exec_cell lab cell_43 (reach (\<lambda>_. True) lab disk () 43)) =
       Raise (Exc ''NameError'' ''contextSwitch'')"
proof -
  have "fst (exec_block lab transect (reach (\<lambda>_. True) lab disk () 43)) = Normal"
    using lab_before_43 by (simp add: reach_def split: prod.splits)
  with google_earth_never_invoked [of lab "\<lambda>_. True" disk "()"] show ?thesis by simp
qed

lemma plot_fails_before_43:
  "case run (\<lambda>_. True) plot_fails 0 (take 43 notebook) (fresh disk ()) of
     (es, s) \<Rightarrow>
       es = [] \<and>
       fst (exec_cell plot_fails cell_43 s) = Raise (Exc ''FileNotFoundError'' ''velocity.h5'')"
  by (simp add: notebook_def cell_defs lab_defs plot_fails_def model_defs)

text \<open>
  Claim C2, as stated: in every execution of the notebook in order, evaluating cell 43
  raises \<open>NameError\<close>. In the session \<open>plot_fails\<close> "Run All" reaches cell 43 without
  an error, and the cell raises the \<open>FileNotFoundError\<close> of \<open>plot_transection.main\<close>,
  the statement before the \<open>with\<close>.
\<close>

theorem plot_failure_counterexample:
  "fst (run (\<lambda>_. True) plot_fails 0 (take 43 notebook) (fresh disk ())) = []
   \<and> fst (exec_cell plot_fails cell_43 (reach (\<lambda>_. True) plot_fails disk () 43)) =
       Raise (Exc ''FileNotFoundError'' ''velocity.h5'')
   \<and> Exc ''FileNotFoundError'' ''velocity.h5'' \<noteq> Exc ''NameError'' ''contextSwitch''"
  using plot_fails_before_43 by (simp add: reach_def split: prod.splits)

text \<open>
  Claim C1. The notebook is to pass the six steps \<open>load_data\<close>, \<open>modify_network\<close>,
  \<open>reference_point\<close>, \<open>invert_network\<close>, \<open>velocity\<close>, \<open>google_earth\<close> to
  \<open>smallbaselineApp.py\<close>, each once and in that order. The six invocations are written
  in the notebook in that order (after a \<open>--help\<close> invocation that passes no step). Run
  in the session \<open>lab\<close>, where every import, call and command succeeds, the notebook
  passes the first five only: cell 43 raises the \<open>NameError\<close> for \<open>contextSwitch\<close>, the
  only error of the run, and \<open>google_earth\<close> is not passed.
\<close>

theorem google_earth_step_not_passed:
  "map fst (invocations (shells_block (code notebook))) =
     [None, Some ''load_data'', Some ''modify_network'', Some ''reference_point'',
      Some ''invert_network'', Some ''velocity'', Some ''google_earth'']
   \<and> fst (run (\<lambda>_. True) lab 0 notebook (fresh disk ())) =
       [(43, Exc ''NameError'' ''contextSwitch'')]
   \<and> steps_run (trace (snd (run (\<lambda>_. True) lab 0 notebook (fresh disk ())))) =
       [''load_data'', ''modify_network'', ''reference_point'', ''invert_network'', ''velocity'']"
  using lab_session written_invocations by simp

section \<open>Error handling in the notebook\<close>

text \<open>
  Claim C3, as stated: apart from the environment check of cell 2 and the file check of
  cell 5, no cell catches an exception, raises one or branches on a failure condition.
  Cell 4 does: it has an \<open>except ImportError\<close> clause, and a \<open>raise\<close> in it.
\<close>

theorem import_check_counterexample:
  "excepts_block (cell_body (notebook ! 4)) = [''ImportError'']
   \<and> raises_block (cell_body (notebook ! 4)) =
       [Call (Name ''ImportError'') [Str ''Looks like mintPy is not fully installed'']]"
  by (simp add: notebook_def cell_4_def)

text \<open>
  Claim C3, amended. The environment check of cell 2, the import check of cell 4
  (\<open>try\<close> / \<open>except ImportError\<close>, raising an \<open>ImportError\<close> of its own) and the file check
  of cell 5 are the only error-handling constructs of the notebook: cell 4 holds its only
  \<open>except\<close> clause and its only \<open>raise\<close>, and the \<open>if\<close> statements are the two of
  cell 2, the file check of cell 5, and the two guards \<open>if not d.exists(): d.mkdir()\<close>
  of cells 5 and 15.
\<close>

theorem error_handling_constructs:
  "cells_with excepts_block notebook = [4]
   \<and> cells_with raises_block notebook = [4]
   \<and> cells_with conds_block notebook = [2, 5, 15]
   \<and> excepts_block (code notebook) = [''ImportError'']
   \<and> raises_block (code notebook) =
       [Call (Name ''ImportError'') [Str ''Looks like mintPy is not fully installed'']]
   \<and> conds_block (code notebook) =
       [Eq (Index (Name ''env'') 0) (Str []),
        Ne (Index (Name ''env'') 0) (Str insar_env),
        expr.Not (Call (Attr (Name ''work_dir'') ''exists'') []),
        Call (Attr (Name ''zipped_path'') ''is_file'') [],
        expr.Not (Call (Attr (Name ''mint_dir'') ''exists'') [])]"
  by (simp add: notebook_def code_def cells_with_def cell_defs)

section \<open>The retrieval cell\<close>

subsection \<open>Extraction never removes anything\<close>

lemma keeps_refl: "keeps f f"
  by (simp add: keeps_def)

lemma keeps_trans: "keeps f g \<Longrightarrow> keeps g h \<Longrightarrow> keeps f h"
  by (simp add: keeps_def)

lemma keeps_new_dir: "node_at f p = None \<Longrightarrow> keeps f (f(p \<mapsto> Dir))"
  by (auto simp: keeps_def is_file_def node_at_def split: if_splits)

lemma keeps_write: "node_at f p \<noteq> Some Dir \<Longrightarrow> keeps f (f(p \<mapsto> File b))"
  by (auto simp: keeps_def is_file_def node_at_def split: if_splits)

lemma makedirs_keeps: "makedirs pre cs f = (r, g) \<Longrightarrow> keeps f g"
proof (induction cs arbitrary: pre f)
  case Nil
  then show ?case by (simp add: keeps_refl)
next
  case (Cons c cs)
  show ?case
  proof (cases "node_at f (pre @ [c])")
    case None
    with Cons.prems have "makedirs (pre @ [c]) cs (f(pre @ [c] \<mapsto> Dir)) = (r, g)" by simp
    from keeps_trans [OF keeps_new_dir [OF None] Cons.IH [OF this]] show ?thesis .
  next
    case (Some n)
    with Cons.prems Cons.IH [of "pre @ [c]" f] show ?thesis
      by (cases n) (auto simp: keeps_refl)
  qed
qed


lemma extract_entry_keeps: "extract_entry d e f = (r, g) \<Longrightarrow> keeps f g"
proof (cases e)
  case (ZFile rel bytes)
  assume a: "extract_entry d e f = (r, g)"
  obtain r1 f1 where m: "makedirs [] (butlast (d @ rel)) f = (r1, f1)"
    by (cases "makedirs [] (butlast (d @ rel)) f")
  note k = makedirs_keeps [OF m]
  show ?thesis
  proof (cases r1)
    case (Some x)
    with a ZFile m k show ?thesis by simp
  next
    case None
    show ?thesis
    proof (cases "node_at f1 (d @ rel) = Some Dir")
      case True
      with a ZFile m None k show ?thesis by simp
    next
      case False
      with a ZFile m None have "g = f1(d @ rel \<mapsto> File bytes)"
        by (auto split: option.splits node.splits)
      with keeps_trans [OF k keeps_write [OF False]] show ?thesis by simp
    qed
  qed
next
  case (ZDir rel)
  assume "extract_entry d e f = (r, g)"
  with ZDir show ?thesis by (simp add: makedirs_keeps)
qed



lemma extractall_keeps: "extractall d es f = (r, g) \<Longrightarrow> keeps f g"
proof (induction es arbitrary: f)
  case Nil
  then show ?case by (simp add: keeps_refl)
next
  case (Cons e es)
  obtain r1 f1 where x: "extract_entry d e f = (r1, f1)" by (cases "extract_entry d e f")
  note k = extract_entry_keeps [OF x]
  show ?case
  proof (cases r1)
    case None
    with Cons.prems x have "extractall d es f1 = (r, g)" by simp
    from keeps_trans [OF k Cons.IH [OF this]] show ?thesis .
  next
    case (Some a)
    with Cons.prems x k show ?thesis by simp
  qed
qed


subsection \<open>Cell 5, statement by statement\<close>

lemma data_LA_path:
  "components ''/home/jovyan/notebooks/SAR_Training/English/Hazards/data_LA'' = data_LA"
  by (simp add: components_def data_LA_def hazards_def)

lemma stack_zip_path: "joinpath data_LA ''Stack.zip'' = stack_zip"
  by (simp add: joinpath_def components_def stack_zip_def is_abs_def)

lemma download_world:
  assumes "after_setup (ns s)"
  shows "exec_block E download s =
     (case (if node_at (fs (wld s)) data_LA = None then mkdir data_LA (fs (wld s)) else Inr (fs (wld s))) of
        Inl e \<Rightarrow> (Raise e, s\<lparr>ns := (ns s)(''work_dir'' \<mapsto> VPath data_LA)\<rparr>)
      | Inr f0 \<Rightarrow>
          (Normal, s\<lparr>ns := (ns s)(''work_dir'' \<mapsto> VPath data_LA, ''zipped_path'' \<mapsto> VPath stack_zip,
                          ''_exit_code'' \<mapsto> VInt (fst (sh E aws_cmd (f0, hidden (wld s))))),
                   wld := set_outside (snd (sh E aws_cmd (f0, hidden (wld s)))) (wld s),
                   trace := trace s @ [(aws_line, aws_cmd)]\<rparr>))"
  using assms
  apply (simp add: download_def after_setup_def lookup_def builtin_names_def call_def call_builtin_def
      is_abs_def data_LA_path get_attr_def native_attr_def call_method_def div_val_def stack_zip_path
      cmd_text_def aws_line_def aws_cmd_def outside_def
      split: sum.splits prod.splits)
  apply (auto simp: set_outside_def)
  done

lemma stack_zip_str:
  "is_abs (path_str stack_zip)" "components (path_str stack_zip) = stack_zip"
  by (simp_all add: path_str_def stack_zip_def data_LA_def hazards_def is_abs_def components_def)

lemmas check_simps =
  download_check_def ready_def lookup_def builtin_names_def call_def call_builtin_def
  get_attr_def native_attr_def call_method_def stack_zip_str check_download_def unpack_def
  enter_def leave_def emit_def

lemma check_world:
  assumes "ready (ns s)"
  shows "fst (exec E download_check s) = fst (check_download E (wld s))
    \<and> wld (snd (exec E download_check s)) = snd (check_download E (wld s))
    \<and> trace (snd (exec E download_check s)) = trace s"
proof (cases "is_file (fs (wld s)) stack_zip")
  case False
  with assms show ?thesis by (simp add: check_simps)
next
  case True
  show ?thesis
  proof (cases "zip_open E stack_zip (fs (wld s))")
    case (Inl e)
    with True assms show ?thesis by (simp add: check_simps)
  next
    case (Inr es)
    obtain r f2 where x: "extractall data_LA es (fs (wld s)) = (r, f2)"
      by (cases "extractall data_LA es (fs (wld s))")
    show ?thesis
    proof (cases r)
      case (Some e)
      with True Inr x assms show ?thesis by (simp add: check_simps)
    next
      case None
      show ?thesis
      proof (cases "unlink stack_zip f2")
        case (Inl e)
        with True Inr x None assms show ?thesis by (simp add: check_simps)
      next
        case (Inr f3)
        with True \<open>zip_open E stack_zip (fs (wld s)) = Inr es\<close> x None assms show ?thesis
          by (simp add: check_simps)
      qed
    qed
  qed
qed

lemma exec_block_single: "exec_block E [c] s = exec E c s"
  by (cases "exec E c s") (auto split: outcome.splits)

lemma cell_5_split:
  assumes "after_setup (ns s)" and "exec_block E download s = (Normal, s1)"
  shows "ready (ns s1)"
    and "fst (exec_cell E cell_5 s) = fst (check_download E (wld s1))"
    and "wld (snd (exec_cell E cell_5 s)) = snd (check_download E (wld s1))"
proof -
  show r: "ready (ns s1)"
    using assms download_world [OF assms(1), of E]
    by (auto simp: ready_def after_setup_def split: sum.splits if_splits)
  have "exec_cell E cell_5 s = exec E download_check s1"
    using assms(2) by (simp add: cell_5_def exec_block_append split: prod.splits outcome.splits)
  with check_world [OF r, of E]
  show "fst (exec_cell E cell_5 s) = fst (check_download E (wld s1))"
    and "wld (snd (exec_cell E cell_5 s)) = snd (check_download E (wld s1))"
    by simp_all
qed

lemma cell_5_stop:
  assumes "exec_block E download s = (Raise e, s1)"
  shows "exec_cell E cell_5 s = (Raise e, s1)"
  using assms by (simp add: cell_5_def exec_block_append)

lemma unlink_file: "is_file f p \<Longrightarrow> unlink p f = Inr (f(p := None))"
  by (auto simp: is_file_def unlink_def split: option.splits node.splits)

lemma unpack_done:
  assumes "is_file (fs w) stack_zip" "zip_open E stack_zip (fs w) = Inr es"
    "extractall data_LA es (fs w) = (None, f2)"
  shows "unpack E w =
    (Normal, w\<lparr>fs := f2(stack_zip := None), out := out w @ [Stdout (success_msg @ [CHR 0x0A])]\<rparr>)"
proof -
  have "is_file f2 stack_zip"
    using extractall_keeps [OF assms(3)] assms(1) by (simp add: keeps_def)
  from unlink_file [OF this] assms show ?thesis by (simp add: unpack_def emit_def)
qed

subsection \<open>Cell 5 in the sessions \<open>lab\<close> and \<open>offline\<close>\<close>

lemma lab_5_state:
  "after_setup (ns lab_5)"
  "wld lab_5 = \<lparr>fs = disk, hidden = (), out = [Display (VExt ''url_widget.URLWidget()'')]\<rparr>"
  by (simp_all add: lab_5_def reach_def notebook_def cell_defs lab_def fresh_def model_defs
      after_setup_def)


lemma aws_prefix: "take 4 aws_cmd = ''aws ''"
  by (simp add: aws_cmd_def)

lemma disk_facts: "node_at disk data_LA = None" "node_at disk (butlast data_LA) = Some Dir"
  by (simp_all add: node_at_def disk_def data_LA_def hazards_def)

lemma lab_download:
  "\<exists>s1. exec_block lab download lab_5 = (Normal, s1)
     \<and> wld s1 = \<lparr>fs = lab_fs, hidden = (), out = out (wld lab_5)\<rparr>"
  using download_world [OF lab_5_state(1), of lab] disk_facts aws_prefix
  by (simp add: lab_5_state(2) mkdir_def lab_def set_outside_def lab_fs_def)


lemma lab_archive:
  "is_file lab_fs stack_zip"
  "zip_open lab stack_zip lab_fs = Inr [ZFile [''LASenDT71.txt''] ''cfg'']"
  "fst (extractall data_LA [ZFile [''LASenDT71.txt''] ''cfg''] lab_fs) = None"
  "snd (extractall data_LA [ZFile [''LASenDT71.txt''] ''cfg''] lab_fs) (data_LA @ [''LASenDT71.txt''])
     = Some (File ''cfg'')"
  by (simp_all add: lab_fs_def is_file_def node_at_def zip_open_def lab_def stack_zip_def
      data_LA_def hazards_def disk_def split: prod.splits)


subsection \<open>The claims about cell 5\<close>











text \<open>
  Claim C6, as stated: around the retrieval step the notebook does nothing of its own
  but check that the downloaded file exists and print a fallback message. In the
  session \<open>lab\<close> the work directory does not exist before cell 5 and the download
  leaves the archive on disk; after the cell the work directory exists, the archive is
  gone, its member is on disk, and the message printed is the success message.
\<close>

theorem retrieval_cell_counterexample:
  "fs (wld lab_5) data_LA = None
   \<and> fs (wld (snd (exec_block lab download lab_5))) stack_zip = Some (File ''PK'')
   \<and> fs (wld (snd (exec_cell lab cell_5 lab_5))) data_LA = Some Dir
   \<and> fs (wld (snd (exec_cell lab cell_5 lab_5))) stack_zip = None
   \<and> fs (wld (snd (exec_cell lab cell_5 lab_5))) (data_LA @ [''LASenDT71.txt'']) = Some (File ''cfg'')
   \<and> out (wld (snd (exec_cell lab cell_5 lab_5))) =
       out (wld lab_5) @ [Stdout (success_msg @ [CHR 0x0A])]"
proof -
  from lab_download obtain s1 where
    d: "exec_block lab download lab_5 = (Normal, s1)"
    and w: "wld s1 = \<lparr>fs = lab_fs, hidden = (), out = out (wld lab_5)\<rparr>"
    by blast
  obtain f2 where x: "extractall data_LA [ZFile [''LASenDT71.txt''] ''cfg''] lab_fs = (None, f2)"
    using lab_archive(3) by (cases "extractall data_LA [ZFile [''LASenDT71.txt''] ''cfg''] lab_fs") simp
  have f2: "f2 = lab_fs(data_LA @ [''LASenDT71.txt''] \<mapsto> File ''cfg'')"
    using x by (simp add: lab_fs_def node_at_def data_LA_def hazards_def disk_def stack_zip_def
        split: prod.splits if_splits)
  have "wld (snd (exec_cell lab cell_5 lab_5)) =
      \<lparr>fs = f2(stack_zip := None), hidden = (),
       out = out (wld lab_5) @ [Stdout (success_msg @ [CHR 0x0A])]\<rparr>"
    using cell_5_split(3) [OF lab_5_state(1) d] lab_archive(1,2) x
    by (simp add: w check_download_def unpack_done)
  then show ?thesis
    using d w lab_5_state(2) disk_facts(1)
    by (simp add: f2 lab_fs_def node_at_def data_LA_def hazards_def stack_zip_def)
qed

text \<open>
  Claim C6, amended. Around the retrieval step the notebook's own logic is: create the
  work directory when it is missing; after the download, check whether the archive is a
  file; if so extract it into the work directory, print a success message and delete the
  archive; if not print the fallback message. The retrieval cell has no other effect on
  the world: its outcome and the world it leaves are those of \<open>retrieval\<close>.
\<close>

theorem retrieval_cell:
  assumes "after_setup (ns s)"
  shows "fst (exec_cell E cell_5 s) = fst (retrieval E (wld s))
       \<and> wld (snd (exec_cell E cell_5 s)) = snd (retrieval E (wld s))"
proof (cases "if node_at (fs (wld s)) data_LA = None then mkdir data_LA (fs (wld s))
              else Inr (fs (wld s))")
  case (Inl e)
  with download_world [OF assms, of E]
  have "exec_block E download s = (Raise e, s\<lparr>ns := (ns s)(''work_dir'' \<mapsto> VPath data_LA)\<rparr>)"
    by simp
  from cell_5_stop [OF this] Inl show ?thesis by (simp add: retrieval_def)
next
  case (Inr f0)
  let ?s1 = "s\<lparr>ns := (ns s)(''work_dir'' \<mapsto> VPath data_LA, ''zipped_path'' \<mapsto> VPath stack_zip,
                          ''_exit_code'' \<mapsto> VInt (fst (sh E aws_cmd (f0, hidden (wld s))))),
                   wld := set_outside (snd (sh E aws_cmd (f0, hidden (wld s)))) (wld s),
                   trace := trace s @ [(aws_line, aws_cmd)]\<rparr>"
  from download_world [OF assms, of E] Inr
  have "exec_block E download s = (Normal, ?s1)" by simp
  from cell_5_split(2,3) [OF assms this] Inr show ?thesis by (simp add: retrieval_def)
qed

text \<open>Witness of C6, amended: the session \<open>lab\<close>.\<close>

theorem retrieval_cell_witness:
  "after_setup (ns lab_5)
   \<and> fst (exec_cell lab cell_5 lab_5) = fst (retrieval lab (wld lab_5))
   \<and> wld (snd (exec_cell lab cell_5 lab_5)) = snd (retrieval lab (wld lab_5))"
  using retrieval_cell [OF lab_5_state(1), of lab] lab_5_state(1) by simp

section \<open>Exit statuses\<close>

text \<open>
  What a run does depends on the exit statuses of its commands in one place only: the
  value bound to \<open>_exit_code\<close>.
\<close>

lemma with_status_fields [simp]:
  "ext_method (with_status E st) = ext_method E"
  "ext_import (with_status E st) = ext_import E"
  "sh_lines (with_status E st) = sh_lines E"
  "unzip (with_status E st) = unzip E"
  "sh (with_status E st) cmd p = (st cmd p, snd (sh E cmd p))"
  by (simp_all add: with_status_def)

lemma invoke_status [simp]:
  "ext_invoke (with_status E st) = ext_invoke E"
  "zip_open (with_status E st) = zip_open E"
  by (simp_all add: fun_eq_iff ext_invoke_def zip_open_def
      cong: option.case_cong node.case_cong)

lemma call_builtin_status [simp]: "call_builtin (with_status E st) = call_builtin E"
  by (simp add: fun_eq_iff call_builtin_def
      cong: if_cong option.case_cong list.case_cong val.case_cong)

lemma call_status [simp]:
  "get_attr (with_status E st) = get_attr E"
  "call (with_status E st) = call E"
  "enter (with_status E st) = enter E"
  "leave (with_status E st) = leave E"
  by (simp_all add: fun_eq_iff get_attr_def call_def enter_def leave_def
      cong: val.case_cong)

lemma eval_status:
  "eval (with_status E st) n e w = eval E n e w"
  "eval_list (with_status E st) n es w = eval_list E n es w"
  by (induction E n e w and E n es w rule: eval_eval_list.induct)
     (simp_all split: prod.splits sum.splits)

lemma eval_agree:
  "(\<forall>x\<in>set (reads_expr e). n x = n' x) \<Longrightarrow> eval E n e w = eval E n' e w"
  "(\<forall>x\<in>set (reads_exprs es). n x = n' x) \<Longrightarrow> eval_list E n es w = eval_list E n' es w"
  by (induction E n e w and E n es w rule: eval_eval_list.induct)
     (simp_all add: lookup_def split: prod.splits sum.splits)

lemma eval_same:
  assumes "same_but ''_exit_code'' s t" and "''_exit_code'' \<notin> set (reads_expr e)"
  shows "eval (with_status E st) (ns t) e (wld t) = eval E (ns s) e (wld s)"
proof -
  have "\<forall>x\<in>set (reads_expr e). ns t x = ns s x"
    using assms unfolding same_but_def by metis
  from eval_agree(1) [OF this, of E "wld t"] assms(1)
  have "eval E (ns t) e (wld t) = eval E (ns s) e (wld s)"
    by (simp add: same_but_def)
  then show ?thesis by (simp add: eval_status)
qed

lemma expand_agree:
  "(\<forall>x\<in>set (reads_line ps). n x = n' x) \<Longrightarrow> expand E n ps w = expand E n' ps w"
proof (induction E n ps w rule: expand.induct)
  case (1 E n w)
  show ?case by simp
next
  case (2 E n s ps w)
  then show ?case by simp
next
  case (3 E n src e ps w)
  then have "eval E n e w = eval E n' e w" by (simp add: eval_agree(1))
  with 3 show ?case by (simp split: prod.splits sum.splits option.splits)
qed

lemma expand_status: "expand (with_status E st) n ps w = expand E n ps w"
  by (induction E n ps w rule: expand.induct)
     (simp_all add: eval_status split: prod.splits sum.splits option.splits)

lemma cmd_text_same:
  assumes "same_but ''_exit_code'' s t" and "''_exit_code'' \<notin> set (reads_line ps)"
  shows "cmd_text (with_status E st) (ns t) ps (wld t) = cmd_text E (ns s) ps (wld s)"
proof -
  have "\<forall>x\<in>set (reads_line ps). ns t x = ns s x"
    using assms unfolding same_but_def by metis
  from expand_agree [OF this, of E "wld t"] assms(1)
  have "expand E (ns t) ps (wld t) = expand E (ns s) ps (wld s)"
    by (simp add: same_but_def)
  then show ?thesis by (simp add: cmd_text_def expand_status)
qed


lemma same_but_refl: "same_but x s s"
  by (simp add: same_but_def)

lemma same_but_wld: "same_but x s t \<Longrightarrow> same_but x (s\<lparr>wld := w\<rparr>) (t\<lparr>wld := w\<rparr>)"
  by (simp add: same_but_def)

lemma same_but_bind:
  "same_but x s t \<Longrightarrow>
   same_but x (s\<lparr>ns := (ns s)(y \<mapsto> v), wld := w\<rparr>) (t\<lparr>ns := (ns t)(y \<mapsto> v), wld := w\<rparr>)"
  by (simp add: same_but_def)

lemma import_module_same:
  assumes "same_but ''_exit_code'' s t"
  shows "fst (import_module (with_status E st) m t) = fst (import_module E m s)
       \<and> same_but ''_exit_code'' (snd (import_module E m s)) (snd (import_module (with_status E st) m t))"
  using assms by (auto simp: import_module_def same_but_def split: prod.splits option.splits)

lemma import_from_same:
  assumes "same_but ''_exit_code'' s t"
  shows "fst (import_from (with_status E st) m xs t) = fst (import_from E m xs s)
       \<and> same_but ''_exit_code'' (snd (import_from E m xs s)) (snd (import_from (with_status E st) m xs t))"
  using assms
proof (induction xs arbitrary: s t)
  case Nil
  then show ?case by simp
next
  case (Cons x xs)
  have w: "wld t = wld s" using Cons.prems by (simp add: same_but_def)
  show ?case
  proof (cases "m \<in> set native_modules")
    case True
    show ?thesis
    proof (cases "native_member m x")
      case None
      with True Cons.prems show ?thesis by simp
    next
      case (Some v)
      have "same_but ''_exit_code'' (s\<lparr>ns := (ns s)(x \<mapsto> v)\<rparr>) (t\<lparr>ns := (ns t)(x \<mapsto> v)\<rparr>)"
        using Cons.prems by (simp add: same_but_def)
      from Cons.IH [OF this] True Some show ?thesis by simp
    qed
  next
    case False
    obtain q w1 where q: "ext_invoke E m ''__getattribute__'' [VStr x] (wld s) = (q, w1)"
      by (cases "ext_invoke E m ''__getattribute__'' [VStr x] (wld s)")
    show ?thesis
    proof (cases q)
      case (Inl e)
      with False q w Cons.prems show ?thesis
        by (cases e) (simp add: same_but_def)
    next
      case (Inr v)
      have "same_but ''_exit_code'' (s\<lparr>ns := (ns s)(x \<mapsto> v), wld := w1\<rparr>) (t\<lparr>ns := (ns t)(x \<mapsto> v), wld := w1\<rparr>)"
        using Cons.prems by (rule same_but_bind)
      from Cons.IH [OF this] False q w Inr show ?thesis by simp
    qed
  qed
qed


lemma exec_block_status_aux:
  assumes "\<And>c s t. c \<in> set cs \<Longrightarrow> ''_exit_code'' \<notin> set (reads c) \<Longrightarrow> same_but ''_exit_code'' s t \<Longrightarrow>
             agree (exec E c s) (exec E' c t)"
    and "''_exit_code'' \<notin> set (reads_block cs)" and "same_but ''_exit_code'' s t"
  shows "agree (exec_block E cs s) (exec_block E' cs t)"
  using assms
proof (induction cs arbitrary: s t)
  case Nil
  then show ?case by (simp add: agree_def)
next
  case (Cons c cs)
  have c: "agree (exec E c s) (exec E' c t)"
    using Cons.prems by simp
  obtain r s1 where a: "exec E c s = (r, s1)" by (cases "exec E c s")
  obtain r' t1 where b: "exec E' c t = (r', t1)" by (cases "exec E' c t")
  from c a b have e: "r' = r" "same_but ''_exit_code'' s1 t1" by (simp_all add: agree_def)
  show ?case
  proof (cases r)
    case Normal
    have "agree (exec_block E cs s1) (exec_block E' cs t1)"
      using Cons.IH [OF _ _ e(2)] Cons.prems(1,2) by simp
    with a b e Normal show ?thesis by simp
  next
    case (Raise x)
    with a b e show ?thesis by (simp add: agree_def)
  qed
qed

lemma exec_status:
  assumes "''_exit_code'' \<notin> set (reads c)" and "same_but ''_exit_code'' s t"
  shows "agree (exec E c s) (exec (with_status E st) c t)"
  using assms
proof (induction c arbitrary: s t)
  case (Import m x)
  from import_module_same [OF Import(2), of E st m] show ?case
    by (auto simp: agree_def same_but_def split: prod.splits outcome.splits)
next
  case (FromImport m xs)
  obtain r1 s1 where a: "import_module E m s = (r1, s1)" by (cases "import_module E m s")
  obtain r2 t1 where b: "import_module (with_status E st) m t = (r2, t1)"
    by (cases "import_module (with_status E st) m t")
  from import_module_same [OF FromImport(2), of E st m] a b
  have e: "r2 = r1" "same_but ''_exit_code'' s1 t1" by simp_all
  show ?case
  proof (cases r1)
    case Normal
    with a b e import_from_same [OF e(2), of E st m xs] show ?thesis by (simp add: agree_def)
  next
    case (Raise x)
    with a b e show ?thesis by (simp add: agree_def)
  qed
next
  case (Assign x e)
  then have "eval (with_status E st) (ns t) e (wld t) = eval E (ns s) e (wld s)"
    by (simp add: eval_same)
  with Assign(2) show ?case
    by (auto simp: agree_def same_but_def split: prod.splits sum.splits)
next
  case (AssignIndex x i e)
  then have "eval (with_status E st) (ns t) e (wld t) = eval E (ns s) e (wld s)"
    by (simp add: eval_same)
  moreover have "lookup (ns t) x = lookup (ns s) x"
    using AssignIndex by (auto simp: lookup_def same_but_def)
  ultimately show ?case using AssignIndex(2)
    by (auto simp: agree_def same_but_def split: prod.splits sum.splits option.splits val.splits)
next
  case (AssignShell x ps)
  then have "cmd_text (with_status E st) (ns t) ps (wld t) = cmd_text E (ns s) ps (wld s)"
    by (simp add: cmd_text_same)
  with AssignShell(2) show ?case
    by (auto simp: agree_def same_but_def split: prod.splits)
next
  case (Shell ps)
  then have "cmd_text (with_status E st) (ns t) ps (wld t) = cmd_text E (ns s) ps (wld s)"
    by (simp add: cmd_text_same)
  with Shell(2) show ?case
    by (auto simp: agree_def same_but_def split: prod.splits)
next
  case (ExprStmt e)
  then have "eval (with_status E st) (ns t) e (wld t) = eval E (ns s) e (wld s)"
    by (simp add: eval_same)
  with ExprStmt(2) show ?case
    by (auto simp: agree_def same_but_def split: prod.splits sum.splits)
next
  case (If c yes no)
  have ev: "eval (with_status E st) (ns t) c (wld t) = eval E (ns s) c (wld s)"
    using If.prems by (simp add: eval_same)
  obtain q w1 where q: "eval E (ns s) c (wld s) = (q, w1)" by (cases "eval E (ns s) c (wld s)")
  show ?case
  proof (cases q)
    case (Inl e)
    with ev q If.prems(2) show ?thesis by (simp add: agree_def same_but_def)
  next
    case (Inr v)
    have sb: "same_but ''_exit_code'' (s\<lparr>wld := w1\<rparr>) (t\<lparr>wld := w1\<rparr>)"
      using If.prems(2) by (rule same_but_wld)
    have "agree (exec_block E yes (s\<lparr>wld := w1\<rparr>))
        (exec_block (with_status E st) yes (t\<lparr>wld := w1\<rparr>))"
      by (rule exec_block_status_aux [OF If.IH(1) _ sb]) (use If.prems(1) in auto)
    moreover have "agree (exec_block E no (s\<lparr>wld := w1\<rparr>))
        (exec_block (with_status E st) no (t\<lparr>wld := w1\<rparr>))"
      by (rule exec_block_status_aux [OF If.IH(2) _ sb]) (use If.prems(1) in auto)
    ultimately show ?thesis using ev q Inr by simp
  qed
next
  case (With e target body)
  have ev: "eval (with_status E st) (ns t) e (wld t) = eval E (ns s) e (wld s)"
    using With.prems by (simp add: eval_same)
  obtain q w1 where q: "eval E (ns s) e (wld s) = (q, w1)" by (cases "eval E (ns s) e (wld s)")
  show ?case
  proof (cases q)
    case (Inl er)
    with ev q With.prems(2) show ?thesis by (simp add: agree_def same_but_def)
  next
    case (Inr cm)
    obtain q2 w2 where q2: "enter E cm w1 = (q2, w2)" by (cases "enter E cm w1")
    show ?thesis
    proof (cases q2)
      case (Inl er)
      with ev q \<open>q = Inr cm\<close> q2 With.prems(2) show ?thesis by (simp add: agree_def same_but_def)
    next
      case (Inr v)
      let ?s = "s\<lparr>ns := (case target of None \<Rightarrow> ns s | Some x \<Rightarrow> (ns s)(x \<mapsto> v)), wld := w2\<rparr>"
      let ?t = "t\<lparr>ns := (case target of None \<Rightarrow> ns t | Some x \<Rightarrow> (ns t)(x \<mapsto> v)), wld := w2\<rparr>"
      have sb: "same_but ''_exit_code'' ?s ?t"
        using With.prems(2) by (cases target) (simp_all add: same_but_def)
      have ag: "agree (exec_block E body ?s) (exec_block (with_status E st) body ?t)"
        by (rule exec_block_status_aux [OF With.IH _ sb]) (use With.prems(1) in auto)
      obtain rb s1 where a: "exec_block E body ?s = (rb, s1)" by (cases "exec_block E body ?s")
      obtain rb' t1 where b: "exec_block (with_status E st) body ?t = (rb', t1)"
        by (cases "exec_block (with_status E st) body ?t")
      from ag a b have e: "rb' = rb" "same_but ''_exit_code'' s1 t1" by (simp_all add: agree_def)
      then have w: "wld t1 = wld s1" by (simp add: same_but_def)
      show ?thesis
        using ev q \<open>q = Inr cm\<close> q2 Inr a b e w
        by (auto simp: agree_def same_but_def split: prod.splits)
    qed
  qed
next
  case (Try body cls handler)
  have ag: "agree (exec_block E body s) (exec_block (with_status E st) body t)"
    by (rule exec_block_status_aux [OF Try.IH(1) _ Try.prems(2)]) (use Try.prems(1) in auto)
  obtain rb s1 where a: "exec_block E body s = (rb, s1)" by (cases "exec_block E body s")
  obtain rb' t1 where b: "exec_block (with_status E st) body t = (rb', t1)"
    by (cases "exec_block (with_status E st) body t")
  from ag a b have e: "rb' = rb" "same_but ''_exit_code'' s1 t1" by (simp_all add: agree_def)
  have h: "agree (exec_block E handler s1)
      (exec_block (with_status E st) handler t1)"
    by (rule exec_block_status_aux [OF Try.IH(2) _ e(2)]) (use Try.prems(1) in auto)
  show ?case
  proof (cases rb)
    case Normal
    with a b e show ?thesis by (simp add: agree_def)
  next
    case (Raise er)
    with a b e h show ?thesis by (simp add: agree_def)
  qed
next
  case (RaiseStmt e)
  then have "eval (with_status E st) (ns t) e (wld t) = eval E (ns s) e (wld s)"
    by (simp add: eval_same)
  with RaiseStmt(2) show ?case
    by (auto simp: agree_def same_but_def split: prod.splits sum.splits val.splits)
qed


lemma exec_cell_status:
  assumes "''_exit_code'' \<notin> set (reads_block (cell_body c))" and "same_but ''_exit_code'' s t"
  shows "agree (exec_cell E c s) (exec_cell (with_status E st) c t)"
proof (cases c)
  case MarkdownCell
  with assms show ?thesis by (simp add: agree_def)
next
  case (CodeCell captured body)
  have ag: "agree (exec_block E body s) (exec_block (with_status E st) body t)"
    by (rule exec_block_status_aux [OF exec_status _ assms(2)]) (use assms(1) CodeCell in auto)
  obtain rb s1 where a: "exec_block E body s = (rb, s1)" by (cases "exec_block E body s")
  obtain rb' t1 where b: "exec_block (with_status E st) body t = (rb', t1)"
    by (cases "exec_block (with_status E st) body t")
  from ag a b have e: "rb' = rb" "same_but ''_exit_code'' s1 t1" by (simp_all add: agree_def)
  with assms(2) CodeCell a b show ?thesis
    by (cases captured) (auto simp: agree_def same_but_def)
qed

lemma reads_block_append: "reads_block (a @ b) = reads_block a @ reads_block b"
  by (induction a) simp_all

lemma run_status:
  assumes "''_exit_code'' \<notin> set (reads_block (code cs))" and "same_but ''_exit_code'' s t"
  shows "fst (run halt (with_status E st) i cs t) = fst (run halt E i cs s)
       \<and> same_but ''_exit_code'' (snd (run halt E i cs s)) (snd (run halt (with_status E st) i cs t))"
  using assms
proof (induction cs arbitrary: i s t)
  case Nil
  then show ?case by simp
next
  case (Cons c cs)
  from Cons.prems(1) have r: "''_exit_code'' \<notin> set (reads_block (cell_body c))" "''_exit_code'' \<notin> set (reads_block (code cs))"
    by (simp_all add: code_Cons reads_block_append)
  obtain r1 s1 where a: "exec_cell E c s = (r1, s1)" by (cases "exec_cell E c s")
  obtain r2 t1 where b: "exec_cell (with_status E st) c t = (r2, t1)"
    by (cases "exec_cell (with_status E st) c t")
  from exec_cell_status [OF r(1) Cons.prems(2), of E st] a b
  have e: "r2 = r1" "same_but ''_exit_code'' s1 t1" by (simp_all add: agree_def)
  note ih = Cons.IH [OF r(2) e(2), of "Suc i"]
  show ?case
  proof (cases r1)
    case Normal
    with a b e ih show ?thesis by simp
  next
    case (Raise x)
    with a b e ih show ?thesis by (cases "halt i") (auto split: prod.splits)
  qed
qed

lemma notebook_reads: "''_exit_code'' \<notin> set (reads_block (code notebook))"
  by (simp add: notebook_def code_def cell_defs)

lemma subseq_distinct:
  assumes "subseq xs ys" and "distinct ys"
  shows "distinct xs"
proof -
  from assms(1) obtain N where "xs = nths ys N" by (auto simp: subseq_conv_nths)
  with assms(2) show ?thesis by simp
qed

lemma notebook_lines_distinct: "distinct (shells_block (code notebook))"
  by (simp add: notebook_def code_def cell_defs)

lemma run_lines_distinct: "distinct (map fst (trace (snd (run halt E 0 notebook (fresh f h)))))"
proof -
  from run_follows [of "fresh f h" halt E 0 notebook]
  obtain t where "trace (snd (run halt E 0 notebook (fresh f h))) = trace (fresh f h) @ t"
    "subseq (map fst t) (shells_block (code notebook))"
    by (auto simp: follows_def)
  then show ?thesis
    using subseq_distinct [OF _ notebook_lines_distinct] by (simp add: fresh_trace)
qed

lemma shell_completes: "fst (exec E (Shell ps) s) = Normal"
  by (simp split: prod.splits)

lemma step_cells:
  "cells_with excepts_block notebook = [4]"
  "cells_with (invocations \<circ> shells_block) notebook = [13, 15, 22, 27, 31, 33, 43]"
  by (simp_all add: notebook_def cells_with_def cell_defs invocations_def words_def
      unquote_def raw_cmd_def is_space_def)

text \<open>
  Claim C8, as stated: a failing step's error propagates as an uncaught process failure.
  In the session \<open>failing\<close> every command exits with status 1, the \<open>velocity\<close> step
  among them, and "Run All" goes on all the same: the only error of the run is the
  \<open>NameError\<close> of cell 43, and the five steps are passed as in \<open>lab\<close>. A failing
  command raises nothing.
\<close>

theorem failing_steps_counterexample:
  "fst (sh failing ''smallbaselineApp.py LASenDT71.txt --dostep velocity'' (disk, ())) = 1
   \<and> fst (run (\<lambda>_. True) failing 0 notebook (fresh disk ())) =
       [(43, Exc ''NameError'' ''contextSwitch'')]
   \<and> steps_run (trace (snd (run (\<lambda>_. True) failing 0 notebook (fresh disk ())))) =
       [''load_data'', ''modify_network'', ''reference_point'', ''invert_network'', ''velocity'']"
  using run_status [OF notebook_reads same_but_refl, of "\<lambda>_. True" lab "\<lambda>cmd p. 1" 0 "fresh disk ()"]
    lab_session
  by (simp add: same_but_def failing_def)

text \<open>
  Claim C8, amended. For every pipeline step invocation the notebook never inspects the
  exit status, never retries the invocation, and performs no recovery or reporting on
  failure; a failing step raises no exception: its status is stored in \<open>_exit_code\<close>,
  which no statement reads, and the run goes on as after a success. Whatever statuses
  \<open>st\<close> the commands exit with, a run from a fresh kernel has the same errors in the
  same cells and ends in the same state but for \<open>_exit_code\<close>: the same world, the same
  commands issued. No statement of the notebook reads \<open>_exit_code\<close>; no shell line is
  issued twice in a run; a shell line completes whatever its status; and the only cell
  with an \<open>except\<close> clause, cell 4, is none of the cells that invoke
  \<open>smallbaselineApp.py\<close>.
\<close>

theorem exit_status_unchecked:
  "fst (run halt (with_status E st) 0 notebook (fresh f h)) = fst (run halt E 0 notebook (fresh f h))
   \<and> same_but ''_exit_code'' (snd (run halt E 0 notebook (fresh f h)))
        (snd (run halt (with_status E st) 0 notebook (fresh f h)))
   \<and> ''_exit_code'' \<notin> set (reads_block (code notebook))
   \<and> distinct (map fst (trace (snd (run halt E 0 notebook (fresh f h)))))
   \<and> fst (exec E (Shell ps) s) = Normal
   \<and> cells_with excepts_block notebook = [4]
   \<and> cells_with (invocations \<circ> shells_block) notebook = [13, 15, 22, 27, 31, 33, 43]"
  using run_status [OF notebook_reads same_but_refl, of halt E st 0 "fresh f h"]
    notebook_reads run_lines_distinct [of halt E f h] shell_completes [of E ps s] step_cells
  by simp

text \<open>Witness of C8, amended: the sessions \<open>lab\<close> and \<open>failing\<close>.\<close>

theorem exit_status_unchecked_witness:
  "same_but ''_exit_code'' (snd (run (\<lambda>_. True) lab 0 notebook (fresh disk ())))
     (snd (run (\<lambda>_. True) failing 0 notebook (fresh disk ())))
   \<and> ''mint_dir'' \<noteq> ''_exit_code''
   \<and> ns (snd (run (\<lambda>_. True) failing 0 notebook (fresh disk ()))) ''mint_dir'' =
       ns (snd (run (\<lambda>_. True) lab 0 notebook (fresh disk ()))) ''mint_dir''
   \<and> wld (snd (run (\<lambda>_. True) failing 0 notebook (fresh disk ()))) =
       wld (snd (run (\<lambda>_. True) lab 0 notebook (fresh disk ())))"
  using exit_status_unchecked [of "\<lambda>_. True" lab "\<lambda>cmd p. 1" disk "()"]
  by (simp add: same_but_def failing_def)

section \<open>The environment check\<close>

lemma split_at_nonempty: "split_at sep acc s \<noteq> []"
  by (induction sep acc s rule: split_at.induct) auto

lemma py_index_last: "xs \<noteq> [] \<Longrightarrow> py_index xs (- 1) = Some (last xs)"
  by (cases xs rule: rev_cases) (auto simp: py_index_def Let_def nth_append)

lemma py_index_first: "py_index (x # xs) 0 = Some x"
  by (simp add: py_index_def Let_def)

lemma py_index_hd: "xs \<noteq> [] \<Longrightarrow> py_index xs 0 = Some (hd xs)"
  by (cases xs) (simp_all add: py_index_first)

lemma py_update_first: "py_update (x # xs) 0 v = Some (v # xs)"
  by (simp add: py_update_def Let_def)

lemma split_index:
  "py_index (map VStr (split_at sep acc s)) (- 1) = Some (VStr (last (split_at sep acc s)))"
  "py_index (map VStr (split_at sep acc s)) 0 = Some (VStr (hd (split_at sep acc s)))"
  using split_at_nonempty [of sep acc s]
  by (simp_all add: py_index_last py_index_hd last_map hd_map)

lemmas eval_defs =
  lookup_def builtin_names_def get_attr_def native_attr_def ext_invoke_def call_def
  call_builtin_def call_method_def index_val_def div_val_def format_all_def cmd_text_def
  native_modules_def native_member_def import_module_def emit_def unsupported_def
  type_error_def outside_def set_outside_def


text \<open>Cell 2 when \<open>echo $CONDA_PREFIX\<close> prints a first line \<open>v\<close>.\<close>

lemma cell_2_line:
  assumes "ns s ''notebookUrl'' = Some (VExt wid)"
    and "ext_method E wid ''__getattribute__'' [VStr ''value''] (outside (wld s)) = (Inr (VStr url), p1)"
    and "sh_lines E ''echo $JUPYTERHUB_USER'' p1 = (u # us, p2)"
    and "sh_lines E ''echo $CONDA_PREFIX'' p2 = (v # vs, p3)"
  shows "fst (exec_cell E cell_2 s) = Normal \<and>
         (\<exists>ds. out (wld (snd (exec_cell E cell_2 s))) = out (wld s) @ ds
          \<and> (v = insar_env \<longrightarrow> ds = [])
          \<and> (v \<noteq> insar_env \<longrightarrow> length ds = 6 \<and> hd ds = warning_head
               \<and> (\<forall>d\<in>set ds. \<exists>t. d = Display (VMarkdown t))))"
proof -
  consider (empty) "v = []" | (match) "v = insar_env" | (other) "v \<noteq> []" "v \<noteq> insar_env"
    by blast
  then show ?thesis
  proof cases
    case empty
    with assms show ?thesis
      by (simp add: cell_2_def warning_lines_def eval_defs py_index_first py_update_first
          split_index insar_env_def warning_head_def del: split_at.simps)
  next
    case match
    with assms show ?thesis
      by (simp add: cell_2_def eval_defs py_index_first insar_env_def)
  next
    case other
    with assms show ?thesis
      by (simp add: cell_2_def warning_lines_def eval_defs py_index_first py_update_first
          split_index insar_env_def warning_head_def del: split_at.simps)
  qed
qed

text \<open>Cell 2 when \<open>echo $CONDA_PREFIX\<close> prints no line: \<open>env[0]\<close> is out of range.\<close>

lemma cell_2_no_line:
  assumes "ns s ''notebookUrl'' = Some (VExt wid)"
    and "ext_method E wid ''__getattribute__'' [VStr ''value''] (outside (wld s)) = (Inr (VStr url), p1)"
    and "sh_lines E ''echo $JUPYTERHUB_USER'' p1 = (u # us, p2)"
    and "sh_lines E ''echo $CONDA_PREFIX'' p2 = ([], p3)"
  shows "fst (exec_cell E cell_2 s) = Raise (Exc ''IndexError'' ''list index out of range'')"
  using assms
  by (simp add: cell_2_def eval_defs py_index_def Let_def)

text \<open>
  Claim C4, amended. Let cell 2 run in a state where \<open>notebookUrl\<close> is the URL widget
  of cell 1, whose \<open>value\<close> is a string, and let \<open>echo $JUPYTERHUB_USER\<close> print at least
  one line. If \<open>echo $CONDA_PREFIX\<close> prints a first line \<open>v\<close>, the cell completes without
  an exception, so that execution continues with the next cell: for \<open>v\<close> the path of the
  \<open>insar_analysis\<close> environment it displays nothing, for every other \<open>v\<close> (the empty
  line of an unset variable included) it displays the six Markdown messages of the
  warning, the first being the red WARNING, after what was displayed before. If
  \<open>echo $CONDA_PREFIX\<close> prints no line, the cell raises \<open>IndexError\<close>.
\<close>

theorem environment_check:
  assumes "ns s ''notebookUrl'' = Some (VExt wid)"
    and "ext_method E wid ''__getattribute__'' [VStr ''value''] (outside (wld s)) = (Inr (VStr url), p1)"
    and "sh_lines E ''echo $JUPYTERHUB_USER'' p1 = (u # us, p2)"
  shows "(\<forall>v vs p3. sh_lines E ''echo $CONDA_PREFIX'' p2 = (v # vs, p3) \<longrightarrow>
            fst (exec_cell E cell_2 s) = Normal \<and>
            (\<exists>ds. out (wld (snd (exec_cell E cell_2 s))) = out (wld s) @ ds
              \<and> (v = insar_env \<longrightarrow> ds = [])
              \<and> (v \<noteq> insar_env \<longrightarrow> length ds = 6 \<and> hd ds = warning_head
                   \<and> (\<forall>d\<in>set ds. \<exists>t. d = Display (VMarkdown t)))))
       \<and> (\<forall>p3. sh_lines E ''echo $CONDA_PREFIX'' p2 = ([], p3) \<longrightarrow>
            fst (exec_cell E cell_2 s) = Raise (Exc ''IndexError'' ''list index out of range''))"
  using cell_2_line [OF assms] cell_2_no_line [OF assms] by blast


text \<open>The three sessions after cell 1.\<close>

lemma cell_2_states:
  "ns (reach (\<lambda>_. True) lab disk () 2) ''notebookUrl'' = Some (VExt ''url_widget.URLWidget()'')"
  "outside (wld (reach (\<lambda>_. True) lab disk () 2)) = (disk, ())"
  "ns (reach (\<lambda>_. True) base_env disk () 2) ''notebookUrl'' = Some (VExt ''url_widget.URLWidget()'')"
  "outside (wld (reach (\<lambda>_. True) base_env disk () 2)) = (disk, ())"
  "ns (reach (\<lambda>_. True) no_output disk () 2) ''notebookUrl'' = Some (VExt ''url_widget.URLWidget()'')"
  "outside (wld (reach (\<lambda>_. True) no_output disk () 2)) = (disk, ())"
  by (simp_all add: reach_def notebook_def cell_1_def lab_def base_env_def no_output_def fresh_def
      model_defs)

lemma widget_value:
  "ext_method lab ''url_widget.URLWidget()'' ''__getattribute__'' [VStr ''value''] (disk, ()) =
     (Inr (VStr ''https://lab/user/u/notebooks/x.ipynb''), (disk, ()))"
  "ext_method base_env ''url_widget.URLWidget()'' ''__getattribute__'' [VStr ''value''] (disk, ()) =
     (Inr (VStr ''https://lab/user/u/notebooks/x.ipynb''), (disk, ()))"
  "ext_method no_output ''url_widget.URLWidget()'' ''__getattribute__'' [VStr ''value''] (disk, ()) =
     (Inr (VStr ''https://lab/user/u/notebooks/x.ipynb''), (disk, ()))"
  by (simp_all add: lab_def base_env_def no_output_def)

lemma echo_lines:
  "sh_lines lab ''echo $JUPYTERHUB_USER'' (disk, ()) = (insar_env # [], (disk, ()))"
  "sh_lines lab ''echo $CONDA_PREFIX'' (disk, ()) = (insar_env # [], (disk, ()))"
  "sh_lines base_env ''echo $JUPYTERHUB_USER'' (disk, ()) = (''jovyan'' # [], (disk, ()))"
  "sh_lines base_env ''echo $CONDA_PREFIX'' (disk, ()) = (''/opt/conda'' # [], (disk, ()))"
  "sh_lines no_output ''echo $JUPYTERHUB_USER'' (disk, ()) = (''jovyan'' # [], (disk, ()))"
  "sh_lines no_output ''echo $CONDA_PREFIX'' (disk, ()) = ([], (disk, ()))"
  by (simp_all add: lab_def base_env_def no_output_def)

text \<open>
  Claim C4, as stated: the check never raises an exception. In the session
  \<open>no_output\<close> the cells before cell 2 run without error, \<open>echo $CONDA_PREFIX\<close> prints no
  line, \<open>env\<close> is the empty list and \<open>env[0]\<close> raises \<open>IndexError\<close>.
\<close>

theorem environment_check_counterexample:
  "fst (run (\<lambda>_. True) no_output 0 (take 2 notebook) (fresh disk ())) = []
   \<and> sh_lines no_output ''echo $CONDA_PREFIX'' (disk, ()) = ([], (disk, ()))
   \<and> fst (exec_cell no_output cell_2 (reach (\<lambda>_. True) no_output disk () 2)) =
       Raise (Exc ''IndexError'' ''list index out of range'')"
proof -
  have "fst (run (\<lambda>_. True) no_output 0 (take 2 notebook) (fresh disk ())) = []"
    by (simp add: notebook_def cell_1_def lab_def no_output_def fresh_def model_defs)
  moreover have "ext_method no_output ''url_widget.URLWidget()'' ''__getattribute__'' [VStr ''value'']
        (outside (wld (reach (\<lambda>_. True) no_output disk () 2))) =
      (Inr (VStr ''https://lab/user/u/notebooks/x.ipynb''), (disk, ()))"
    by (simp only: cell_2_states(6) widget_value(3))
  from cell_2_no_line [OF cell_2_states(5) this echo_lines(5) echo_lines(6)]
  have "fst (exec_cell no_output cell_2 (reach (\<lambda>_. True) no_output disk () 2)) =
       Raise (Exc ''IndexError'' ''list index out of range'')" .
  ultimately show ?thesis using echo_lines(6) by simp
qed

text \<open>
  Witness of C4, amended: the session \<open>lab\<close> (the \<open>insar_analysis\<close> kernel, nothing
  displayed), the session \<open>base_env\<close> (another kernel, six messages) and the session
  \<open>no_output\<close>.
\<close>

theorem environment_check_witness:
  "fst (exec_cell lab cell_2 (reach (\<lambda>_. True) lab disk () 2)) = Normal
   \<and> out (wld (snd (exec_cell lab cell_2 (reach (\<lambda>_. True) lab disk () 2)))) =
       out (wld (reach (\<lambda>_. True) lab disk () 2))
   \<and> fst (exec_cell base_env cell_2 (reach (\<lambda>_. True) base_env disk () 2)) = Normal
   \<and> length (out (wld (snd (exec_cell base_env cell_2 (reach (\<lambda>_. True) base_env disk () 2))))) =
       length (out (wld (reach (\<lambda>_. True) base_env disk () 2))) + 6
   \<and> fst (exec_cell no_output cell_2 (reach (\<lambda>_. True) no_output disk () 2)) =
       Raise (Exc ''IndexError'' ''list index out of range'')"
proof -
  have a: "ext_method lab ''url_widget.URLWidget()'' ''__getattribute__'' [VStr ''value'']
        (outside (wld (reach (\<lambda>_. True) lab disk () 2))) =
      (Inr (VStr ''https://lab/user/u/notebooks/x.ipynb''), (disk, ()))"
    by (simp only: cell_2_states(2) widget_value(1))
  have b: "ext_method base_env ''url_widget.URLWidget()'' ''__getattribute__'' [VStr ''value'']
        (outside (wld (reach (\<lambda>_. True) base_env disk () 2))) =
      (Inr (VStr ''https://lab/user/u/notebooks/x.ipynb''), (disk, ()))"
    by (simp only: cell_2_states(4) widget_value(2))
  have c: "ext_method no_output ''url_widget.URLWidget()'' ''__getattribute__'' [VStr ''value'']
        (outside (wld (reach (\<lambda>_. True) no_output disk () 2))) =
      (Inr (VStr ''https://lab/user/u/notebooks/x.ipynb''), (disk, ()))"
    by (simp only: cell_2_states(6) widget_value(3))
  note l = environment_check [OF cell_2_states(1) a echo_lines(1), THEN conjunct1, rule_format,
      OF echo_lines(2)]
  note m = environment_check [OF cell_2_states(3) b echo_lines(3), THEN conjunct1, rule_format,
      OF echo_lines(4)]
  note n = environment_check [OF cell_2_states(5) c echo_lines(5), THEN conjunct2, rule_format,
      OF echo_lines(6)]
  have ne: "''/opt/conda'' \<noteq> insar_env" by (simp add: insar_env_def)
  from l have "fst (exec_cell lab cell_2 (reach (\<lambda>_. True) lab disk () 2)) = Normal
      \<and> out (wld (snd (exec_cell lab cell_2 (reach (\<lambda>_. True) lab disk () 2)))) =
          out (wld (reach (\<lambda>_. True) lab disk () 2))"
    by auto
  moreover from m ne
  have "fst (exec_cell base_env cell_2 (reach (\<lambda>_. True) base_env disk () 2)) = Normal
      \<and> length (out (wld (snd (exec_cell base_env cell_2 (reach (\<lambda>_. True) base_env disk () 2))))) =
          length (out (wld (reach (\<lambda>_. True) base_env disk () 2))) + 6"
    by auto
  ultimately show ?thesis using n by simp
qed

section \<open>The configuration file\<close>

text \<open>What cell 15 issues: nothing, the copy command, or the copy command and \<open>load_data\<close>.\<close>

lemma cell_15_parts: "shells_block setup_15 = []"
  by (simp add: setup_15_def)

lemma subseq_single: "subseq xs [y] \<Longrightarrow> xs = [] \<or> xs = [y]"
  by (cases xs) (simp_all split: if_splits)

lemma exec_cell_code: "exec_cell E (CodeCell False body) s = exec_block E body s"
  by (cases "exec_block E body s") simp

lemma exec_block_after:
  assumes "exec_block E a s = (Normal, s1)"
  shows "exec_block E (a @ b) s = exec_block E b s1"
  by (simp add: exec_block_append assms)

lemma exec_block_stops:
  assumes "exec_block E a s = (Raise e, s1)"
  shows "exec_block E (a @ b) s = (Raise e, s1)"
  by (simp add: exec_block_append assms)

lemma exec_shell_issues:
  obtains cmd s' where "exec E (Shell ps) s = (Normal, s')" and "trace s' = trace s @ [(ps, cmd)]"
proof -
  have "\<exists>cmd s'. exec E (Shell ps) s = (Normal, s') \<and> trace s' = trace s @ [(ps, cmd)]"
    by (simp split: prod.splits)
  then show thesis by (elim exE conjE) (rule that)
qed

lemma exec_block_pair:
  assumes "exec E c s = (Normal, s1)" and "exec E d s1 = (r, s2)"
  shows "exec_block E [c, d] s = (r, s2)"
  using assms by (cases r) simp_all

lemma in_mint_dir_shells: "shells (in_mint_dir [Shell l]) = [l]"
  by (simp add: in_mint_dir_def)

lemma in_mint_dir_issues:
  assumes "exec E (in_mint_dir [Shell l]) s = (r, s')"
  obtains t where "trace s' = trace s @ t" and "map fst t = [] \<or> map fst t = [l]"
proof -
  have "follows s s' (shells (in_mint_dir [Shell l])) (binds (in_mint_dir [Shell l]))"
    using assms by (rule exec_follows)
  then have "follows s s' [l] (binds (in_mint_dir [Shell l]))"
    by (simp only: in_mint_dir_shells)
  then have "\<exists>t. trace s' = trace s @ t \<and> subseq (map fst t) [l]"
    unfolding follows_def by (rule conjunct1)
  then obtain t where t: "trace s' = trace s @ t" "subseq (map fst t) [l]"
    by (elim exE conjE)
  from subseq_single [OF t(2)] have "map fst t = [] \<or> map fst t = [l]" .
  with t(1) show thesis by (rule that)
qed

lemma setup_15_trace:
  assumes "exec_block E setup_15 s = (r, s')"
  shows "trace s' = trace s"
proof -
  from exec_block_follows [OF assms]
  have "follows s s' [] (binds_block setup_15)" by (simp only: cell_15_parts)
  then show ?thesis by (rule follows_trace)
qed

lemma cell_15_issues:
  assumes "exec_cell E cell_15 s = (r, s')"
  shows "\<exists>B. trace s' = trace s @ B
           \<and> (map fst B = [] \<or> map fst B = [cp_line] \<or> map fst B = [cp_line, load_data_line])
           \<and> (r = Normal \<longrightarrow> B \<noteq> [])"
proof -
  obtain r1 s1 where p: "exec_block E setup_15 s = (r1, s1)" by (cases "exec_block E setup_15 s")
  from setup_15_trace [OF p] have t1: "trace s1 = trace s" .
  have c: "exec_block E (setup_15 @ [Shell cp_line, in_mint_dir [Shell load_data_line]]) s = (r, s')"
    using assms unfolding cell_15_def exec_cell_code .
  show ?thesis
  proof (cases r1)
    case (Raise e)
    with p have "exec_block E setup_15 s = (Raise e, s1)" by (simp only:)
    from exec_block_stops [OF this, of "[Shell cp_line, in_mint_dir [Shell load_data_line]]"] c
    have "(r, s') = (Raise e, s1)" by (simp only:)
    then have "r = Raise e" "s' = s1" by (simp_all only: prod.inject)
    with t1 have "trace s' = trace s @ []" "r \<noteq> Normal" by simp_all
    then show ?thesis by (intro exI [of _ "[]"]) simp
  next
    case Normal
    with p have p': "exec_block E setup_15 s = (Normal, s1)" by (simp only:)
    obtain cmd s2 where
      q: "exec E (Shell cp_line) s1 = (Normal, s2)" and s2: "trace s2 = trace s1 @ [(cp_line, cmd)]"
      by (rule exec_shell_issues)
    obtain r3 s3 where w: "exec E (in_mint_dir [Shell load_data_line]) s2 = (r3, s3)"
      by (cases "exec E (in_mint_dir [Shell load_data_line]) s2")
    obtain t where
      t: "trace s3 = trace s2 @ t" "map fst t = [] \<or> map fst t = [load_data_line]"
      by (rule in_mint_dir_issues [OF w])
    have "exec_block E (setup_15 @ [Shell cp_line, in_mint_dir [Shell load_data_line]]) s =
        exec_block E [Shell cp_line, in_mint_dir [Shell load_data_line]] s1"
      by (rule exec_block_after [OF p'])
    also have "\<dots> = (r3, s3)" by (rule exec_block_pair [OF q w])
    finally have "(r, s') = (r3, s3)" using c by (simp only:)
    then have "s' = s3" by (simp only: prod.inject)
    with t(1) t1 s2 have a: "trace s' = trace s @ ((cp_line, cmd) # t)" by (simp only: append_assoc append.simps)
    from t(2)
    have b: "map fst ((cp_line, cmd) # t) = [cp_line] \<or> map fst ((cp_line, cmd) # t) = [cp_line, load_data_line]"
      by (simp only: list.map fst_conv) simp
    have "(cp_line, cmd) # t \<noteq> []" by (rule list.distinct(2))
    with a b show ?thesis by (intro exI [of _ "(cp_line, cmd) # t"]) (simp only:, simp only: simp_thms)
  qed
qed

text \<open>The cells before cell 15 issue neither the copy command nor a step.\<close>

lemma notebook_at_15: "notebook = take 15 notebook @ cell_15 # drop 16 notebook"
  by (simp add: notebook_def)

lemma before_15_static:
  "filter (\<lambda>l. l \<in> set (cp_line # step_lines)) (shells_block (code (take 15 notebook))) = []"
  by (simp add: notebook_def code_def cell_defs step_lines_def)

lemma subseq_filter_nil:
  assumes "subseq xs ys" and "filter P ys = []"
  shows "filter P xs = []"
proof -
  from assms(1) have "subseq (filter P xs) (filter P ys)" by (rule subseq_filter)
  with assms(2) show ?thesis by simp
qed

lemma follows_from:
  assumes "follows s s' ls xs"
  obtains t where "trace s' = trace s @ t" and "subseq (map fst t) ls"
proof -
  from assms have "\<exists>t. trace s' = trace s @ t \<and> subseq (map fst t) ls"
    unfolding follows_def by (rule conjunct1)
  then show thesis by (elim exE conjE) (rule that)
qed

lemma before_15_lines:
  "filter (\<lambda>l. l \<in> set (cp_line # step_lines))
     (map fst (trace (snd (run halt E 0 (take 15 notebook) (fresh f h))))) = []"
proof -
  obtain t where t: "trace (snd (run halt E 0 (take 15 notebook) (fresh f h))) = trace (fresh f h) @ t"
    "subseq (map fst t) (shells_block (code (take 15 notebook)))"
    by (rule follows_from [OF run_follows])
  from subseq_filter_nil [OF t(2) before_15_static] t(1) show ?thesis
    by (simp add: fresh_trace)
qed

lemma copied_first_nil:
  assumes "filter (\<lambda>l. l \<in> set (cp_line # step_lines)) (map fst A) = []"
  shows "copied_first (map fst A)"
  using assms by (simp add: copied_first_def)

lemma copied_first_copy:
  assumes "filter (\<lambda>l. l \<in> set (cp_line # step_lines)) (map fst A) = []"
    and "map fst B = cp_line # ls"
  shows "copied_first (map fst (A @ B @ C))"
  using assms by (simp add: copied_first_def)

text \<open>When the run stops at an error in cell 15, the copy command comes before any step.\<close>

lemma copy_first:
  assumes "halt 15"
  shows "copied_first (map fst (trace (snd (run halt E 0 notebook (fresh f h)))))"
proof -
  let ?s = "fresh f h"
  obtain es0 s0 where r0: "run halt E 0 (take 15 notebook) ?s = (es0, s0)"
    by (cases "run halt E 0 (take 15 notebook) ?s")
  have A: "filter (\<lambda>l. l \<in> set (cp_line # step_lines)) (map fst (trace s0)) = []"
    using before_15_lines [of halt E f h] by (simp only: r0 snd_conv)
  obtain r s1 where c: "exec_cell E cell_15 s0 = (r, s1)" by (cases "exec_cell E cell_15 s0")
  from cell_15_issues [OF c] obtain B where
    B: "trace s1 = trace s0 @ B"
       "map fst B = [] \<or> map fst B = [cp_line] \<or> map fst B = [cp_line, load_data_line]"
       "r = Normal \<longrightarrow> B \<noteq> []"
    by (elim exE conjE)
  obtain es2 s2 where r2: "run halt E 16 (drop 16 notebook) s1 = (es2, s2)"
    by (cases "run halt E 16 (drop 16 notebook) s1")
  obtain C where "trace (snd (run halt E 16 (drop 16 notebook) s1)) = trace s1 @ C"
    by (rule follows_from [OF run_follows])
  then have C: "trace s2 = trace s1 @ C" by (simp only: r2 snd_conv)
  have len: "length notebook = 46" by (simp add: notebook_def)
  have "run halt E 0 notebook ?s = run halt E 0 (take 15 notebook @ cell_15 # drop 16 notebook) ?s"
    by (rule arg_cong [where f = "\<lambda>cs. run halt E 0 cs ?s", OF notebook_at_15])
  also have "\<dots> =
      (if halted halt es0 then (es0, s0)
       else case r of Normal \<Rightarrow> (es0 @ es2, s2) | Raise e \<Rightarrow> (es0 @ [(15, e)], s1))"
    unfolding run_append using assms by (simp add: r0 len c r2 split: outcome.splits)
  finally have run: "run halt E 0 notebook ?s =
      (if halted halt es0 then (es0, s0)
       else case r of Normal \<Rightarrow> (es0 @ es2, s2) | Raise e \<Rightarrow> (es0 @ [(15, e)], s1))" .
  show ?thesis
  proof (cases "halted halt es0")
    case True
    with run have "trace (snd (run halt E 0 notebook ?s)) = trace s0" by simp
    with copied_first_nil [OF A] show ?thesis by (simp only:)
  next
    case False
    show ?thesis
    proof (cases "map fst B = []")
      case True
      then have b: "B = []" by simp
      with B(3) obtain e where e: "r = Raise e" by (cases r) simp_all
      with False run have "trace (snd (run halt E 0 notebook ?s)) = trace s1" by simp
      with B(1) b have "trace (snd (run halt E 0 notebook ?s)) = trace s0" by simp
      with copied_first_nil [OF A] show ?thesis by (simp only:)
    next
      case nonempty: False
      with B(2) obtain ls where ls: "map fst B = cp_line # ls" by auto
      have "\<exists>D. trace (snd (run halt E 0 notebook ?s)) = trace s0 @ B @ D"
      proof (cases r)
        case Normal
        with False run have "trace (snd (run halt E 0 notebook ?s)) = trace s2" by simp
        with B(1) C have "trace (snd (run halt E 0 notebook ?s)) = trace s0 @ B @ C" by simp
        then show ?thesis by (rule exI)
      next
        case (Raise e)
        with False run have "trace (snd (run halt E 0 notebook ?s)) = trace s1" by simp
        with B(1) have "trace (snd (run halt E 0 notebook ?s)) = trace s0 @ B @ []" by simp
        then show ?thesis by (rule exI)
      qed
      then obtain D where "trace (snd (run halt E 0 notebook ?s)) = trace s0 @ B @ D"
        by (elim exE)
      with copied_first_copy [OF A ls, of D] show ?thesis by (simp only:)
    qed
  qed
qed

text \<open>The lines a run issues, and the invocations among them.\<close>

lemma google_earth_not_issued:
  "google_earth_line \<notin> fst ` set (trace (snd (run halt E 0 notebook (fresh f h))))"
proof -
  have "ns (snd (run halt E 0 notebook (fresh f h))) ''contextSwitch'' = None
      \<and> google_earth_line \<notin> fst ` set (trace (snd (run halt E 0 notebook (fresh f h))))"
    by (rule run_invariant [where P = "\<lambda>s. ns s ''contextSwitch'' = None
          \<and> google_earth_line \<notin> fst ` set (trace s)"])
       (simp add: fresh_ns fresh_trace, rule google_earth_invariant)
  then show ?thesis by (rule conjunct2)
qed

lemma invocations_subseq: "subseq xs ys \<Longrightarrow> subseq (invocations xs) (invocations ys)"
  unfolding invocations_def by (intro subseq_map subseq_filter)

lemma issued_subseq:
  "subseq (map fst (trace (snd (run halt E 0 notebook (fresh f h))))) issued_lines"
proof -
  let ?t = "trace (snd (run halt E 0 notebook (fresh f h)))"
  obtain t where t: "?t = trace (fresh f h) @ t" "subseq (map fst t) (shells_block (code notebook))"
    by (rule follows_from [OF run_follows])
  from t(1) have eq: "?t = t" by (simp add: fresh_trace)
  from t(2) have "subseq (filter (\<lambda>l. l \<noteq> google_earth_line) (map fst t)) issued_lines"
    unfolding issued_lines_def by (rule subseq_filter)
  moreover have "filter (\<lambda>l. l \<noteq> google_earth_line) (map fst t) = map fst t"
    using google_earth_not_issued [of halt E f h] unfolding eq
    by (simp add: filter_id_conv) force
  ultimately show ?thesis unfolding eq by (simp only:)
qed

lemma issued_invocations:
  "invocations issued_lines =
     [(None, None),
      (Some ''load_data'', Some ''LASenDT71.txt''),
      (Some ''modify_network'', Some ''LASenDT71.txt''),
      (Some ''reference_point'', Some ''LASenDT71.txt''),
      (Some ''invert_network'', Some ''LASenDT71.txt''),
      (Some ''velocity'', Some ''LASenDT71.txt'')]"
  by (simp add: issued_lines_def notebook_def code_def cell_defs invocations_def step_of_def
      config_of_def words_def unquote_def raw_cmd_def is_space_def)

lemma step_commands:
  "map (\<lambda>ps. fst (cmd_text E n ps w)) step_lines = map raw_cmd step_lines"
  by (simp add: step_lines_def cell_defs cmd_text_def raw_cmd_def)

text \<open>The commands of the session \<open>lab\<close> up to cell 15.\<close>

lemma lab_16:
  "map snd (trace (reach (\<lambda>_. True) lab disk () 16)) =
     [''echo $JUPYTERHUB_USER'', ''echo $CONDA_PREFIX'',
      ''aws --region=us-west-2 --no-sign-request s3 cp s3://asf-jupyter-data-west/Fielding/Stack.zip /home/jovyan/notebooks/SAR_Training/English/Hazards/data_LA/Stack.zip'',
      ''smallbaselineApp.py --help'',
      ''cp /home/jovyan/notebooks/SAR_Training/English/Hazards/data_LA/LASenDT71.txt /home/jovyan/notebooks/SAR_Training/English/Hazards/data_LA/MintPy'',
      ''smallbaselineApp.py 'LASenDT71.txt' --dostep load_data'']"
  by (simp add: reach_def notebook_def cell_defs lab_defs model_defs)

lemma cell_43_line:
  "shells_block (cell_body (notebook ! 43)) = [google_earth_line]"
  "config_of (raw_cmd google_earth_line) = Some ''smallbaselineApp.cfg''"
  "config_of ''smallbaselineApp.py --help'' = None"
  by (simp_all add: notebook_def cell_defs config_of_def words_def unquote_def raw_cmd_def
      is_space_def)

text \<open>
  Claim C7, as stated: every invocation of \<open>smallbaselineApp.py\<close> passes the
  configuration file \<open>LASenDT71.txt\<close>. In the session \<open>lab\<close> the fourth command of the
  run is \<open>smallbaselineApp.py --help\<close>, of cell 13, which passes no configuration file;
  and the invocation written in cell 43, for the step \<open>google_earth\<close>, passes
  \<open>smallbaselineApp.cfg\<close>.
\<close>

theorem configuration_file_counterexample:
  "map snd (trace (reach (\<lambda>_. True) lab disk () 16)) ! 3 = ''smallbaselineApp.py --help''
   \<and> config_of ''smallbaselineApp.py --help'' = None
   \<and> shells_block (cell_body (notebook ! 43)) = [google_earth_line]
   \<and> config_of (raw_cmd google_earth_line) = Some ''smallbaselineApp.cfg''"
  using cell_43_line by (simp add: lab_16)

text \<open>
  Claim C7, amended. The notebook writes seven invocations of \<open>smallbaselineApp.py\<close>:
  \<open>--help\<close>, with no configuration file, the five steps \<open>load_data\<close> to \<open>velocity\<close>,
  each with \<open>LASenDT71.txt\<close>, and \<open>google_earth\<close> with \<open>smallbaselineApp.cfg\<close>. In
  every run from a fresh kernel, whatever the collaborators do and whether or not the
  session stops at errors, the invocations issued are among the first six, in that order:
  every step that is passed is passed with \<open>LASenDT71.txt\<close>. The step lines hold no
  \<open>{...}\<close> piece, so the command issued is the line as written, in every state. When the
  run stops at an error in cell 15 (as "Run All" does), the copy command
  \<open>cp {work_dir/'LASenDT71.txt'} {mint_dir}\<close> of cell 15 is issued before any step.
\<close>

theorem configuration_file:
  "invocations (shells_block (code notebook)) =
     [(None, None),
      (Some ''load_data'', Some ''LASenDT71.txt''),
      (Some ''modify_network'', Some ''LASenDT71.txt''),
      (Some ''reference_point'', Some ''LASenDT71.txt''),
      (Some ''invert_network'', Some ''LASenDT71.txt''),
      (Some ''velocity'', Some ''LASenDT71.txt''),
      (Some ''google_earth'', Some ''smallbaselineApp.cfg'')]
   \<and> subseq (invocations (map fst (trace (snd (run halt E 0 notebook (fresh f h))))))
       [(None, None),
        (Some ''load_data'', Some ''LASenDT71.txt''),
        (Some ''modify_network'', Some ''LASenDT71.txt''),
        (Some ''reference_point'', Some ''LASenDT71.txt''),
        (Some ''invert_network'', Some ''LASenDT71.txt''),
        (Some ''velocity'', Some ''LASenDT71.txt'')]
   \<and> map (\<lambda>ps. fst (cmd_text E n ps w)) step_lines = map raw_cmd step_lines
   \<and> (halt 15 \<longrightarrow> copied_first (map fst (trace (snd (run halt E 0 notebook (fresh f h))))))"
proof -
  have "subseq (invocations (map fst (trace (snd (run halt E 0 notebook (fresh f h))))))
      (invocations issued_lines)"
    using issued_subseq by (rule invocations_subseq)
  moreover have "halt 15 \<longrightarrow> copied_first (map fst (trace (snd (run halt E 0 notebook (fresh f h)))))"
    by (rule impI) (rule copy_first)
  ultimately show ?thesis
    using written_invocations step_commands [of E n w]
    by (simp only: issued_invocations simp_thms)
qed

text \<open>
  Witness of C7, amended: "Run All" in the session \<open>lab\<close>, where the copy command names
  the file in the work directory and the MintPy directory, and \<open>load_data\<close> follows it.
\<close>

theorem configuration_file_witness:
  "copied_first (map fst (trace (snd (run (\<lambda>_. True) lab 0 notebook (fresh disk ())))))
   \<and> map snd (trace (reach (\<lambda>_. True) lab disk () 16)) ! 4 =
       ''cp /home/jovyan/notebooks/SAR_Training/English/Hazards/data_LA/LASenDT71.txt /home/jovyan/notebooks/SAR_Training/English/Hazards/data_LA/MintPy''
   \<and> map snd (trace (reach (\<lambda>_. True) lab disk () 16)) ! 5 =
       ''smallbaselineApp.py 'LASenDT71.txt' --dostep load_data''"
  using configuration_file [of "\<lambda>_. True" lab disk "()" Map.empty "wld (fresh disk ())"]
  by (simp add: lab_16)

end
